theory Spec2Isabelle
  imports Complex_Main "HOL-Library.Word"
begin

section \<open>Two native inference plugins over the ONNX Runtime C API\<close>

text \<open>
  The repository holds two plugins with the same exported functions:
  \<^item> \<^verbatim>\<open>UnityONNXInferenceCVPlugin/dllmain.cpp\<close>, whose definitions carry the suffix \<open>_cv\<close>;
  \<^item> \<^verbatim>\<open>UnityOnnxYOLOXDetectorPlugin/.../dllmain.cpp\<close>, whose definitions carry the
    suffix \<open>_yolox\<close> (record fields: \<open>y_\<close>).
  Global variables become the fields of a state record that every exported function
  takes and returns. Behaviour that C++ leaves undefined (a null or dangling pointer
  passed on, an access outside an array, signed overflow) is a \<open>fault\<close> result.
\<close>

subsection \<open>Machine values\<close>

type_synonym byte = "8 word"

text \<open>A pointer to an object of the runtime or of the C heap; \<open>0\<close> is the null pointer.\<close>

type_synonym handle = nat

datatype fault =
  NullApi | InvalidHandle | OutOfBounds | SignedOverflow | Uninitialised | DanglingPointer

definition bindE :: "fault + 'a \<Rightarrow> ('a \<Rightarrow> fault + 'b) \<Rightarrow> fault + 'b" where
  "bindE m f = (case m of Inl e \<Rightarrow> Inl e | Inr x \<Rightarrow> f x)"

text \<open>\<^verbatim>\<open>int\<close> is 32 bits wide; a result outside its range is undefined behaviour.\<close>

definition int_ok :: "int \<Rightarrow> bool" where
  "int_ok x \<longleftrightarrow> - 2147483648 \<le> x \<and> x \<le> 2147483647"

definition sizeof_float :: int where
  "sizeof_float = 4"

text \<open>Both plugins are built for 64-bit Windows: pointers and \<^verbatim>\<open>size_t\<close> have 8 bytes.\<close>

definition sizeof_pointer :: int where
  "sizeof_pointer = 8"

definition to_size_t :: "int \<Rightarrow> int" where
  "to_size_t x = x mod 2 ^ 64"

text \<open>\<^verbatim>\<open>const int n_channels = 3\<close> (never assigned in the second plugin either).\<close>

definition n_channels :: int where
  "n_channels = 3"

text \<open>
  \<^verbatim>\<open>provider_name.find(key) != std::string::npos\<close>: the position of the first occurrence
  of \<open>key\<close>, \<open>None\<close> for \<^verbatim>\<open>npos\<close>.
\<close>

fun string_find :: "string \<Rightarrow> string \<Rightarrow> nat option" where
  "string_find [] key = (if key = [] then Some 0 else None)"
| "string_find (c # cs) key =
     (if take (length key) (c # cs) = key then Some 0
      else map_option Suc (string_find cs key))"

text \<open>
  \<^verbatim>\<open>image_data[i] / 255.0f\<close>: the byte, converted to a float, divided by 255. Floats are
  the reals here; the rounding of the quotient to single precision is left out.
\<close>

definition byte_div_255 :: "byte \<Rightarrow> real" where
  "byte_div_255 b = real (unat b) / 255"

subsection \<open>The preprocessing loops of PerformInference\<close>

text \<open>
  \<^verbatim>\<open>for (int ch = 0; ch < n_channels; ch++)
      input_data[ch * n_pixels + p] = (image_data[p * n_channels + ch] / 255.0f);\<close>
  The loops are the same text in both plugins and differ in the cell type of the buffer
  only, which the function \<open>scale\<close> produces from the quotient.
\<close>

function store_channels ::
  "(byte \<Rightarrow> 'a) \<Rightarrow> int \<Rightarrow> byte list \<Rightarrow> int \<Rightarrow> int \<Rightarrow> 'a list \<Rightarrow> fault + 'a list" where
  "store_channels scale n image_data p ch buf =
     (if ch < n_channels then
        (let dst = ch * n + p; src = p * n_channels + ch in
         if \<not> (int_ok (ch * n) \<and> int_ok dst \<and> int_ok (p * n_channels) \<and> int_ok src)
           then Inl SignedOverflow
         else if \<not> (0 \<le> src \<and> src < int (length image_data)) then Inl OutOfBounds
         else if \<not> (0 \<le> dst \<and> dst < int (length buf)) then Inl OutOfBounds
         else store_channels scale n image_data p (ch + 1)
                (buf[nat dst := scale (image_data ! nat src)]))
      else Inr buf)"
  by pat_completeness auto
termination
  by (relation "measure (\<lambda>(scale, n, image_data, p, ch, buf). nat (n_channels - ch))") auto

declare store_channels.simps [simp del]

text \<open>\<^verbatim>\<open>for (int p = 0; p < n_pixels; p++) { ... }\<close>\<close>

function preprocess_pixels ::
  "(byte \<Rightarrow> 'a) \<Rightarrow> int \<Rightarrow> byte list \<Rightarrow> int \<Rightarrow> 'a list \<Rightarrow> fault + 'a list" where
  "preprocess_pixels scale n image_data p buf =
     (if p < n then
        (case store_channels scale n image_data p 0 buf of
           Inl e \<Rightarrow> Inl e
         | Inr buf' \<Rightarrow> preprocess_pixels scale n image_data (p + 1) buf')
      else Inr buf)"
  by pat_completeness auto
termination
  by (relation "measure (\<lambda>(scale, n, image_data, p, buf). nat (n - p))") auto

declare preprocess_pixels.simps [simp del]

text \<open>
  \<^verbatim>\<open>std::memcpy(output_array, out_data, length * sizeof(float))\<close>: \<open>length\<close> floats are
  read from the output tensor and written over the start of the caller's array. A
  negative \<open>length\<close> becomes a huge \<^verbatim>\<open>size_t\<close>, which no array holds.
\<close>

definition memcpy_floats :: "'f list \<Rightarrow> 'f list \<Rightarrow> int \<Rightarrow> fault + 'f list" where
  "memcpy_floats output_array out_data len =
     (if 0 \<le> len \<and> nat len \<le> length out_data \<and> nat len \<le> length output_array
      then Inr (take (nat len) out_data @ drop (nat len) output_array)
      else Inl OutOfBounds)"

subsection \<open>The ONNX Runtime, as far as the plugins use it\<close>

text \<open>
  The runtime is an external collaborator. Its objects are identified by handles; the
  model keeps the set of objects that are alive, and the sequence of API calls made.
  Session options are the list of configuration calls applied to them; a session
  remembers the environment, the options and the model path it was created from; a
  tensor value remembers how many dimensions it has.
\<close>

datatype ExecutionMode = ORT_SEQUENTIAL | ORT_PARALLEL

datatype option_call =
    DisableMemPattern
  | SetSessionExecutionMode ExecutionMode
  | AppendExecutionProvider_DML int

datatype resource =
    REnv
  | RSessionOptions "option_call list"
  | RSession handle "option_call list" string
  | RMemoryInfo
  | RValue nat
  | RTensorInfo

datatype ort_call =
    CreateEnv handle
  | DisableTelemetryEvents handle
  | CreateSessionOptions handle
  | ConfigureOptions handle option_call
  | CreateSession handle string handle handle
  | ReleaseSessionOptions handle
  | SessionGetInputName handle
  | SessionGetOutputName handle
  | CreateCpuMemoryInfo handle
  | CreateTensorWithDataAsOrtValue handle handle
  | ReleaseMemoryInfo handle
  | Run handle handle handle
  | GetTensorTypeAndShape handle handle
  | GetDimensionsCount handle
  | GetDimensions handle
  | GetTensorMutableData handle
  | ReleaseValue handle
  | ReleaseSession handle
  | ReleaseEnv handle

record ort_world =
  next_handle :: handle
  live :: "(handle \<times> resource) list"
  calls :: "ort_call list"

definition initial_world :: ort_world where
  "initial_world = \<lparr>next_handle = 1, live = [], calls = []\<rparr>"

text \<open>
  What the plugin cannot see from its own code: the providers the runtime reports, which
  model files load and what the loaded graph answers, whether an allocation succeeds, and
  the order in which \<^verbatim>\<open>std::unordered_map\<close> iterates its two keys.
\<close>

record 'f platform =
  available_providers :: "string list"
  model_loads :: "string \<Rightarrow> bool"
  model_input_name :: "string \<Rightarrow> string"
  model_output_name :: "string \<Rightarrow> string"
  model_output :: "string \<Rightarrow> 'f list \<Rightarrow> 'f list option"
  model_output_rank :: "string \<Rightarrow> nat"
  out_of_memory :: "int \<Rightarrow> bool"
  dml_key_first :: bool

definition log_call :: "ort_call \<Rightarrow> ort_world \<Rightarrow> ort_world" where
  "log_call c w = w\<lparr>calls := calls w @ [c]\<rparr>"

definition new_resource :: "resource \<Rightarrow> ort_world \<Rightarrow> handle \<times> ort_world" where
  "new_resource r w =
     (next_handle w,
      w\<lparr>next_handle := Suc (next_handle w), live := (next_handle w, r) # live w\<rparr>)"

definition resource_at :: "ort_world \<Rightarrow> handle \<Rightarrow> resource option" where
  "resource_at w h = map_of (live w) h"

definition drop_resource :: "handle \<Rightarrow> ort_world \<Rightarrow> ort_world" where
  "drop_resource h w = w\<lparr>live := filter (\<lambda>(k, r). k \<noteq> h) (live w)\<rparr>"

text \<open>The handles of the live environments and sessions, newest first.\<close>

definition live_envs :: "ort_world \<Rightarrow> handle list" where
  "live_envs w = map fst (filter (\<lambda>(k, r). r = REnv) (live w))"

fun is_session :: "resource \<Rightarrow> bool" where
  "is_session (RSession e cfg path) = True"
| "is_session r = False"

definition live_sessions :: "ort_world \<Rightarrow> handle list" where
  "live_sessions w = map fst (filter (\<lambda>(k, r). is_session r) (live w))"

text \<open>The configuration calls a live session was created with.\<close>

definition session_config :: "ort_world \<Rightarrow> handle \<Rightarrow> option_call list option" where
  "session_config w h =
     (case resource_at w h of Some (RSession e cfg path) \<Rightarrow> Some cfg | _ \<Rightarrow> None)"

definition ort_CreateEnv :: "ort_world \<Rightarrow> handle \<times> ort_world" where
  "ort_CreateEnv w = (let (h, w') = new_resource REnv w in (h, log_call (CreateEnv h) w'))"

definition ort_DisableTelemetryEvents :: "handle \<Rightarrow> ort_world \<Rightarrow> fault + ort_world" where
  "ort_DisableTelemetryEvents e w =
     (case resource_at w e of
        Some REnv \<Rightarrow> Inr (log_call (DisableTelemetryEvents e) w)
      | _ \<Rightarrow> Inl InvalidHandle)"

definition ort_CreateSessionOptions :: "ort_world \<Rightarrow> handle \<times> ort_world" where
  "ort_CreateSessionOptions w =
     (let (h, w') = new_resource (RSessionOptions []) w
      in (h, log_call (CreateSessionOptions h) w'))"

text \<open>
  \<^verbatim>\<open>DisableMemPattern\<close>, \<^verbatim>\<open>SetSessionExecutionMode\<close> and
  \<^verbatim>\<open>OrtSessionOptionsAppendExecutionProvider_DML\<close> each add their setting to the options.
\<close>

definition ort_configure :: "handle \<Rightarrow> option_call \<Rightarrow> ort_world \<Rightarrow> fault + ort_world" where
  "ort_configure opts c w =
     (case resource_at w opts of
        Some (RSessionOptions cfg) \<Rightarrow>
          Inr (log_call (ConfigureOptions opts c)
                 (w\<lparr>live := (opts, RSessionOptions (cfg @ [c])) # live w\<rparr>))
      | _ \<Rightarrow> Inl InvalidHandle)"

fun ort_configure_all :: "handle \<Rightarrow> option_call list \<Rightarrow> ort_world \<Rightarrow> fault + ort_world" where
  "ort_configure_all opts [] w = Inr w"
| "ort_configure_all opts (c # cs) w =
     bindE (ort_configure opts c w) (ort_configure_all opts cs)"

text \<open>
  \<^verbatim>\<open>CreateSession\<close> stores a new session in its out parameter, or the null pointer when
  the model does not load; the status it returns is ignored by both plugins.
\<close>

definition ort_CreateSession ::
  "'f platform \<Rightarrow> handle \<Rightarrow> string \<Rightarrow> handle \<Rightarrow> ort_world \<Rightarrow> fault + handle \<times> ort_world" where
  "ort_CreateSession E e path opts w =
     (case (resource_at w e, resource_at w opts) of
        (Some REnv, Some (RSessionOptions cfg)) \<Rightarrow>
          if model_loads E path
          then (let (h, w') = new_resource (RSession e cfg path) w
                in Inr (h, log_call (CreateSession e path opts h) w'))
          else Inr (0, log_call (CreateSession e path opts 0) w)
      | _ \<Rightarrow> Inl InvalidHandle)"

text \<open>Every release function accepts the null pointer and then does nothing.\<close>

definition ort_release ::
  "(resource \<Rightarrow> bool) \<Rightarrow> ort_call \<Rightarrow> handle \<Rightarrow> ort_world \<Rightarrow> fault + ort_world" where
  "ort_release kind c h w =
     (if h = 0 then Inr (log_call c w)
      else case resource_at w h of
        Some r \<Rightarrow> if kind r then Inr (log_call c (drop_resource h w)) else Inl InvalidHandle
      | None \<Rightarrow> Inl InvalidHandle)"

fun is_options :: "resource \<Rightarrow> bool" where
  "is_options (RSessionOptions cfg) = True"
| "is_options r = False"

definition ort_ReleaseSessionOptions :: "handle \<Rightarrow> ort_world \<Rightarrow> fault + ort_world" where
  "ort_ReleaseSessionOptions h = ort_release is_options (ReleaseSessionOptions h) h"

definition ort_ReleaseSession :: "handle \<Rightarrow> ort_world \<Rightarrow> fault + ort_world" where
  "ort_ReleaseSession h = ort_release is_session (ReleaseSession h) h"

definition ort_ReleaseEnv :: "handle \<Rightarrow> ort_world \<Rightarrow> fault + ort_world" where
  "ort_ReleaseEnv h = ort_release (\<lambda>r. r = REnv) (ReleaseEnv h) h"

definition ort_ReleaseMemoryInfo :: "handle \<Rightarrow> ort_world \<Rightarrow> fault + ort_world" where
  "ort_ReleaseMemoryInfo h = ort_release (\<lambda>r. r = RMemoryInfo) (ReleaseMemoryInfo h) h"

fun is_value :: "resource \<Rightarrow> bool" where
  "is_value (RValue k) = True"
| "is_value r = False"

definition ort_ReleaseValue :: "handle \<Rightarrow> ort_world \<Rightarrow> fault + ort_world" where
  "ort_ReleaseValue h = ort_release is_value (ReleaseValue h) h"

definition ort_SessionGetInputName ::
  "'f platform \<Rightarrow> handle \<Rightarrow> ort_world \<Rightarrow> fault + string \<times> ort_world" where
  "ort_SessionGetInputName E h w =
     (case resource_at w h of
        Some (RSession e cfg path) \<Rightarrow>
          Inr (model_input_name E path, log_call (SessionGetInputName h) w)
      | _ \<Rightarrow> Inl InvalidHandle)"

definition ort_SessionGetOutputName ::
  "'f platform \<Rightarrow> handle \<Rightarrow> ort_world \<Rightarrow> fault + string \<times> ort_world" where
  "ort_SessionGetOutputName E h w =
     (case resource_at w h of
        Some (RSession e cfg path) \<Rightarrow>
          Inr (model_output_name E path, log_call (SessionGetOutputName h) w)
      | _ \<Rightarrow> Inl InvalidHandle)"

definition ort_CreateCpuMemoryInfo :: "ort_world \<Rightarrow> handle \<times> ort_world" where
  "ort_CreateCpuMemoryInfo w =
     (let (h, w') = new_resource RMemoryInfo w in (h, log_call (CreateCpuMemoryInfo h) w'))"

definition ort_CreateTensorWithDataAsOrtValue ::
  "handle \<Rightarrow> nat \<Rightarrow> ort_world \<Rightarrow> fault + handle \<times> ort_world" where
  "ort_CreateTensorWithDataAsOrtValue m shape_len w =
     (case resource_at w m of
        Some RMemoryInfo \<Rightarrow>
          (let (h, w') = new_resource (RValue shape_len) w
           in Inr (h, log_call (CreateTensorWithDataAsOrtValue m h) w'))
      | _ \<Rightarrow> Inl InvalidHandle)"

text \<open>
  \<^verbatim>\<open>Run\<close> leaves the output tensor null when the graph produces no output; otherwise
  the output tensor is a new value, whose floats are returned with it.
\<close>

definition ort_Run ::
  "'f platform \<Rightarrow> handle \<Rightarrow> handle \<Rightarrow> 'f list \<Rightarrow> ort_world
     \<Rightarrow> fault + (handle \<times> 'f list) \<times> ort_world" where
  "ort_Run E s input_tensor input w =
     (case (resource_at w s, resource_at w input_tensor) of
        (Some (RSession e cfg path), Some (RValue k)) \<Rightarrow>
          (case model_output E path input of
             None \<Rightarrow> Inr ((0, []), log_call (Run s input_tensor 0) w)
           | Some out_data \<Rightarrow>
               (let (h, w') = new_resource (RValue (model_output_rank E path)) w
                in Inr ((h, out_data), log_call (Run s input_tensor h) w')))
      | _ \<Rightarrow> Inl InvalidHandle)"

definition ort_GetTensorMutableData :: "handle \<Rightarrow> ort_world \<Rightarrow> fault + ort_world" where
  "ort_GetTensorMutableData h w =
     (case resource_at w h of
        Some (RValue k) \<Rightarrow> Inr (log_call (GetTensorMutableData h) w)
      | _ \<Rightarrow> Inl InvalidHandle)"

text \<open>
  \<^verbatim>\<open>GetTensorTypeAndShape\<close>, \<^verbatim>\<open>GetDimensionsCount\<close> and \<^verbatim>\<open>GetDimensions\<close> of the second
  plugin: a shape-info object is created (and never released there), and as many
  dimensions as the output has are written into the caller's array. The result is the
  number of dimensions written.
\<close>

definition ort_GetTensorTypeAndShape :: "handle \<Rightarrow> ort_world \<Rightarrow> fault + nat \<times> ort_world" where
  "ort_GetTensorTypeAndShape h w =
     (case resource_at w h of
        Some (RValue k) \<Rightarrow>
          (let (i, w') = new_resource RTensorInfo w
           in Inr (k, log_call (GetDimensions i)
                        (log_call (GetDimensionsCount i)
                           (log_call (GetTensorTypeAndShape h i) w'))))
      | _ \<Rightarrow> Inl InvalidHandle)"

subsection \<open>The first plugin: UnityONNXInferenceCVPlugin\<close>

text \<open>
  An exception of the C++ library, and what \<^verbatim>\<open>LoadModel\<close> returns: a pointer to one of
  its string literals. In the handler \<^verbatim>\<open>catch (const std::exception& e) { return e.what(); }\<close>
  the pointer belongs to the exception object, which is destroyed when the handler is
  left: the pointer that reaches the caller dangles, and that return of LoadModel is the
  fault \<open>DanglingPointer\<close>.
\<close>

datatype cpp_exception = Length_error | Bad_alloc

datatype load_message = Literal string

record 'f cv_state =
  input_w :: int
  input_h :: int
  n_pixels :: int
  ort :: bool
  provider_names :: "string list"
  env :: handle
  session_options :: handle
  session :: handle
  input_name :: string
  output_name :: string
  input_data :: "'f list"
  world :: ort_world

text \<open>The globals as the loader leaves them: zero, null, empty.\<close>

definition initial_cv :: "'f cv_state" where
  "initial_cv =
     \<lparr>input_w = 0, input_h = 0, n_pixels = 0, ort = False, provider_names = [],
      env = 0, session_options = 0, session = 0, input_name = [], output_name = [],
      input_data = [], world = initial_world\<rparr>"

text \<open>\<^verbatim>\<open>ort->f(...)\<close>: the call goes through the API pointer, null until InitOrtAPI.\<close>

definition through_api :: "bool \<Rightarrow> fault + 'a \<Rightarrow> fault + 'a" where
  "through_api api m = (if api then m else Inl NullApi)"

definition InitOrtAPI_cv :: "'f platform \<Rightarrow> 'f cv_state \<Rightarrow> 'f cv_state" where
  "InitOrtAPI_cv E s = s\<lparr>ort := True, provider_names := available_providers E\<rparr>"

text \<open>\<^verbatim>\<open>static_cast<int>(provider_names.size())\<close>\<close>

definition to_int :: "int \<Rightarrow> int" where
  "to_int x = (x + 2 ^ 31) mod 2 ^ 32 - 2 ^ 31"

definition GetProviderCount_cv :: "'f cv_state \<Rightarrow> int" where
  "GetProviderCount_cv s = to_int (int (length (provider_names s)))"

text \<open>
  \<^verbatim>\<open>if (index >= 0 && index < provider_names.size()) return provider_names[index].c_str();
  return nullptr;\<close> The second comparison is made in \<^verbatim>\<open>size_t\<close>; \<open>None\<close> is the null
  pointer.
\<close>

definition GetProviderName_cv :: "'f cv_state \<Rightarrow> int \<Rightarrow> string option" where
  "GetProviderName_cv s index =
     (if index \<ge> 0 \<and> to_size_t index < int (length (provider_names s))
      then Some (provider_names s ! nat index)
      else None)"

text \<open>
  \<^verbatim>\<open>if (session) ort->ReleaseSession(session);
  if (env) ort->ReleaseEnv(env);\<close> Neither pointer is assigned.
\<close>

definition FreeResources_cv :: "'f cv_state \<Rightarrow> fault + 'f cv_state" where
  "FreeResources_cv s =
     bindE (if session s \<noteq> 0
            then through_api (ort s) (ort_ReleaseSession (session s) (world s))
            else Inr (world s)) (\<lambda>w.
     bindE (if env s \<noteq> 0
            then through_api (ort s) (ort_ReleaseEnv (env s) w)
            else Inr w) (\<lambda>w.
     Inr (s\<lparr>world := w\<rparr>)))"

text \<open>
  The map from provider key to settings. The lambda of \<open>CPU\<close> is empty; the lambda of
  \<open>Dml\<close> makes three calls on the session options. The order of the two entries is the
  iteration order of the unordered map.
\<close>

definition execution_provider_actions :: "'f platform \<Rightarrow> (string \<times> option_call list) list" where
  "execution_provider_actions E =
     (let cpu = (''CPU'', []);
          dml = (''Dml'', [DisableMemPattern, SetSessionExecutionMode ORT_SEQUENTIAL,
                           AppendExecutionProvider_DML 0])
      in if dml_key_first E then [dml, cpu] else [cpu, dml])"

text \<open>
  The loop over the map: the action of the first key found in the provider name, and
  \<open>None\<close> when \<^verbatim>\<open>action_taken\<close> stays false.
\<close>

fun first_action :: "string \<Rightarrow> (string \<times> option_call list) list \<Rightarrow> option_call list option" where
  "first_action provider_name [] = None"
| "first_action provider_name ((key, action) # rest) =
     (if string_find provider_name key \<noteq> None then Some action
      else first_action provider_name rest)"

text \<open>
  \<^verbatim>\<open>input_data.resize(n)\<close> with \<open>n\<close> an \<^verbatim>\<open>int\<close>: a negative \<open>n\<close> becomes a \<^verbatim>\<open>size_t\<close> beyond
  \<^verbatim>\<open>max_size()\<close>; shrinking keeps the front; growing keeps all elements and appends
  zeros, unless memory runs out.
\<close>

definition vector_resize :: "'f platform \<Rightarrow> 'f::zero list \<Rightarrow> int \<Rightarrow> cpp_exception + 'f list" where
  "vector_resize E v n =
     (if n < 0 then Inl Length_error
      else if nat n \<le> length v then Inr (take (nat n) v)
      else if out_of_memory E (n * sizeof_float) then Inl Bad_alloc
      else Inr (v @ replicate (nat n - length v) 0))"

definition LoadModel_cv ::
  "'f platform \<Rightarrow> 'f::zero cv_state \<Rightarrow> string \<Rightarrow> string \<Rightarrow> int \<times> int
     \<Rightarrow> fault + load_message \<times> 'f cv_state" where
  "LoadModel_cv E s model_path execution_provider image_dims =
     through_api (ort s)
      (let (e, w) = ort_CreateEnv (world s); s = s\<lparr>env := e\<rparr> in
       bindE (ort_DisableTelemetryEvents e w) (\<lambda>w.
       let (opts, w) = ort_CreateSessionOptions w; s = s\<lparr>session_options := opts\<rparr> in
       case first_action execution_provider (execution_provider_actions E) of
         None \<Rightarrow> Inr (Literal ''Unknown execution provider specified.'', s\<lparr>world := w\<rparr>)
       | Some action \<Rightarrow>
           bindE (ort_configure_all opts action w) (\<lambda>w.
           bindE (ort_CreateSession E e model_path opts w) (\<lambda>(se, w).
           let s = s\<lparr>session := se\<rparr> in
           bindE (ort_ReleaseSessionOptions opts w) (\<lambda>w.
           bindE (ort_SessionGetInputName E se w) (\<lambda>(iname, w).
           let s = s\<lparr>input_name := iname\<rparr> in
           bindE (ort_SessionGetOutputName E se w) (\<lambda>(oname, w).
           let s = s\<lparr>output_name := oname, input_w := fst image_dims,
                     input_h := snd image_dims\<rparr> in
           if \<not> int_ok (input_w s * input_h s) then Inl SignedOverflow else
           let s = s\<lparr>n_pixels := input_w s * input_h s\<rparr> in
           if \<not> int_ok (n_pixels s * n_channels) then Inl SignedOverflow else
           case vector_resize E (input_data s) (n_pixels s * n_channels) of
             Inl ex \<Rightarrow> Inl DanglingPointer
           | Inr v \<Rightarrow>
               Inr (Literal ''Model loaded successfully.'',
                    s\<lparr>input_data := v, world := w\<rparr>))))))))"

text \<open>
  PerformInference: the preprocessing loops, the input tensor over \<open>input_data\<close>, the
  run, and either the early return on a null output tensor or the copy into
  \<open>output_array\<close>. The result is the new state and the caller's array.
\<close>

definition PerformInference_cv ::
  "real platform \<Rightarrow> real cv_state \<Rightarrow> byte list \<Rightarrow> real list \<Rightarrow> int
     \<Rightarrow> fault + real cv_state \<times> real list" where
  "PerformInference_cv E s image_data output_array len =
     bindE (preprocess_pixels byte_div_255 (n_pixels s) image_data 0 (input_data s))
       (\<lambda>buf.
     let s = s\<lparr>input_data := buf\<rparr> in
     through_api (ort s)
      (let (memory_info, w) = ort_CreateCpuMemoryInfo (world s) in
       bindE (ort_CreateTensorWithDataAsOrtValue memory_info 4 w) (\<lambda>(input_tensor, w).
       bindE (ort_ReleaseMemoryInfo memory_info w) (\<lambda>w.
       bindE (ort_Run E (session s) input_tensor (input_data s) w)
         (\<lambda>((output_tensor, out_data), w).
       if output_tensor = 0 then
         bindE (ort_ReleaseValue input_tensor w) (\<lambda>w.
         Inr (s\<lparr>world := w\<rparr>, output_array))
       else
         bindE (ort_GetTensorMutableData output_tensor w) (\<lambda>w.
         bindE (memcpy_floats output_array out_data len) (\<lambda>output_array.
         bindE (ort_ReleaseValue input_tensor w) (\<lambda>w.
         bindE (ort_ReleaseValue output_tensor w) (\<lambda>w.
         Inr (s\<lparr>world := w\<rparr>, output_array))))))))))"

subsection \<open>The second plugin: UnityOnnxYOLOXDetectorPlugin\<close>

text \<open>
  Here \<open>input_data\<close> is a pointer into the C heap. The heap lists the blocks that are
  allocated, each as its float cells; a cell that was never written is \<open>None\<close>.
\<close>

record 'f yolox_state =
  y_input_w :: int
  y_input_h :: int
  y_n_pixels :: int
  y_ort :: bool
  y_provider_names :: "string list"
  y_provider_count :: int
  y_env :: handle
  y_session_options :: handle
  y_session :: handle
  y_input_name :: string
  y_output_name :: string
  y_input_data :: handle
  y_input_size :: int
  y_heap :: "(handle \<times> 'f option list) list"
  y_next_block :: handle
  y_world :: ort_world

definition initial_yolox :: "'f yolox_state" where
  "initial_yolox =
     \<lparr>y_input_w = 0, y_input_h = 0, y_n_pixels = 0, y_ort = False, y_provider_names = [],
      y_provider_count = 0, y_env = 0, y_session_options = 0, y_session = 0,
      y_input_name = [], y_output_name = [], y_input_data = 0, y_input_size = 0,
      y_heap = [], y_next_block = 1, y_world = initial_world\<rparr>"

definition InitOrtAPI_yolox :: "'f platform \<Rightarrow> 'f yolox_state \<Rightarrow> 'f yolox_state" where
  "InitOrtAPI_yolox E s =
     s\<lparr>y_ort := True, y_provider_names := available_providers E,
       y_provider_count := to_int (int (length (available_providers E)))\<rparr>"

definition GetProviderCount_yolox :: "'f yolox_state \<Rightarrow> int" where
  "GetProviderCount_yolox s = y_provider_count s"

text \<open>
  \<^verbatim>\<open>return provider_names[index];\<close> on the \<^verbatim>\<open>char**\<close> of the runtime: an index outside
  the array reads the memory next to it.
\<close>

definition GetProviderName_yolox :: "'f yolox_state \<Rightarrow> int \<Rightarrow> fault + string" where
  "GetProviderName_yolox s index =
     (if 0 \<le> index \<and> index < int (length (y_provider_names s))
      then Inr (y_provider_names s ! nat index)
      else Inl OutOfBounds)"

text \<open>\<^verbatim>\<open>free(p)\<close>: nothing for the null pointer, undefined for a block already freed.\<close>

definition c_free ::
  "handle \<Rightarrow> (handle \<times> 'c list) list \<Rightarrow> fault + (handle \<times> 'c list) list" where
  "c_free p heap =
     (if p = 0 then Inr heap
      else if map_of heap p = None then Inl InvalidHandle
      else Inr (filter (\<lambda>(k, cells). k \<noteq> p) heap))"

text \<open>
  \<^verbatim>\<open>if (input_data) free(input_data);
  if (session) ort->ReleaseSession(session);
  if (env) ort->ReleaseEnv(env);\<close>
\<close>

definition RefreshMemory_yolox :: "'f yolox_state \<Rightarrow> fault + 'f yolox_state" where
  "RefreshMemory_yolox s =
     bindE (if y_input_data s \<noteq> 0 then c_free (y_input_data s) (y_heap s)
            else Inr (y_heap s)) (\<lambda>heap.
     bindE (if y_session s \<noteq> 0
            then through_api (y_ort s) (ort_ReleaseSession (y_session s) (y_world s))
            else Inr (y_world s)) (\<lambda>w.
     bindE (if y_env s \<noteq> 0
            then through_api (y_ort s) (ort_ReleaseEnv (y_env s) w)
            else Inr w) (\<lambda>w.
     Inr (s\<lparr>y_heap := heap, y_world := w\<rparr>))))"

text \<open>
  \<^verbatim>\<open>free(input_data);
  ort->ReleaseSession(session);
  ort->ReleaseEnv(env);\<close>
\<close>

definition FreeResources_yolox :: "'f yolox_state \<Rightarrow> fault + 'f yolox_state" where
  "FreeResources_yolox s =
     bindE (c_free (y_input_data s) (y_heap s)) (\<lambda>heap.
     bindE (through_api (y_ort s) (ort_ReleaseSession (y_session s) (y_world s))) (\<lambda>w.
     bindE (through_api (y_ort s) (ort_ReleaseEnv (y_env s) w)) (\<lambda>w.
     Inr (s\<lparr>y_heap := heap, y_world := w\<rparr>))))"

text \<open>
  The provider branch of LoadModel: the value of \<open>return_val\<close> and the settings applied.
  \<^verbatim>\<open>if (find("CPU") != npos) return_val = 1;
  else if (find("Dml") != npos) { three calls } else return_val = 1;\<close>
\<close>

definition add_provider_yolox :: "string \<Rightarrow> int \<times> option_call list" where
  "add_provider_yolox provider_name =
     (if string_find provider_name ''CPU'' \<noteq> None then (1, [])
      else if string_find provider_name ''Dml'' \<noteq> None
        then (0, [DisableMemPattern, SetSessionExecutionMode ORT_SEQUENTIAL,
                  AppendExecutionProvider_DML 0])
      else (1, []))"

text \<open>
  \<^verbatim>\<open>input_data = (float*)malloc((size_t)input_size * sizeof(float*));
  if (input_data != NULL) memset(input_data, 0, input_size);\<close>
  The pointer (null when the allocation fails) and the cells of the new block.
\<close>

definition malloc_input ::
  "'f platform \<Rightarrow> handle \<Rightarrow> int \<Rightarrow> fault + handle \<times> 'f::zero option list" where
  "malloc_input E fresh input_size =
     (let bytes = to_size_t (to_size_t input_size * sizeof_pointer) in
      if out_of_memory E bytes then Inr (0, [])
      else if to_size_t input_size > bytes then Inl OutOfBounds
      else Inr (fresh,
                replicate (nat (to_size_t input_size div sizeof_float)) (Some 0) @
                replicate (nat (bytes div sizeof_float) -
                           nat (to_size_t input_size div sizeof_float)) None))"

definition LoadModel_yolox ::
  "'f platform \<Rightarrow> 'f::zero yolox_state \<Rightarrow> string \<Rightarrow> string \<Rightarrow> int \<times> int
     \<Rightarrow> fault + int \<times> 'f yolox_state" where
  "LoadModel_yolox E s model_path execution_provider image_dims =
     through_api (y_ort s)
      (let (e, w) = ort_CreateEnv (y_world s); s = s\<lparr>y_env := e\<rparr> in
       bindE (ort_DisableTelemetryEvents e w) (\<lambda>w.
       let (opts, w) = ort_CreateSessionOptions w; s = s\<lparr>y_session_options := opts\<rparr>;
           (return_val, settings) = add_provider_yolox execution_provider in
       bindE (ort_configure_all opts settings w) (\<lambda>w.
       bindE (ort_CreateSession E e model_path opts w) (\<lambda>(se, w).
       let s = s\<lparr>y_session := se\<rparr> in
       bindE (ort_ReleaseSessionOptions opts w) (\<lambda>w.
       bindE (ort_SessionGetInputName E se w) (\<lambda>(iname, w).
       let s = s\<lparr>y_input_name := iname\<rparr> in
       bindE (ort_SessionGetOutputName E se w) (\<lambda>(oname, w).
       let s = s\<lparr>y_output_name := oname, y_input_w := fst image_dims,
                 y_input_h := snd image_dims\<rparr> in
       if \<not> int_ok (y_input_w s * y_input_h s) then Inl SignedOverflow else
       let s = s\<lparr>y_n_pixels := y_input_w s * y_input_h s\<rparr> in
       if \<not> (int_ok (y_n_pixels s * n_channels) \<and>
              int_ok (y_n_pixels s * n_channels * sizeof_float)) then Inl SignedOverflow else
       let s = s\<lparr>y_input_size := y_n_pixels s * n_channels * sizeof_float\<rparr> in
       bindE (malloc_input E (y_next_block s) (y_input_size s)) (\<lambda>(p, cells).
       Inr (return_val,
            s\<lparr>y_input_data := p,
              y_heap := (if p = 0 then y_heap s else (p, cells) # y_heap s),
              y_next_block := (if p = 0 then y_next_block s else Suc (y_next_block s)),
              y_world := w\<rparr>)))))))))"

text \<open>
  The floats the runtime reads through the input tensor: \<open>input_size\<close> bytes from
  \<open>input_data\<close>.
\<close>

definition tensor_floats :: "'f option list \<Rightarrow> int \<Rightarrow> fault + 'f list" where
  "tensor_floats cells input_size =
     (let n = nat (to_size_t input_size div sizeof_float) in
      if length cells < n then Inl OutOfBounds
      else if None \<in> set (take n cells) then Inl Uninitialised
      else Inr (map the (take n cells)))"

text \<open>The loops write through \<open>input_data\<close> as soon as there is one pixel.\<close>

definition preprocess_yolox ::
  "real platform \<Rightarrow> real yolox_state \<Rightarrow> byte list \<Rightarrow> fault + real yolox_state" where
  "preprocess_yolox E s image_data =
     (if y_n_pixels s \<le> 0 then Inr s
      else case map_of (y_heap s) (y_input_data s) of
        None \<Rightarrow> Inl InvalidHandle
      | Some cells \<Rightarrow>
          bindE (preprocess_pixels (\<lambda>b. Some (byte_div_255 b)) (y_n_pixels s)
                   image_data 0 cells) (\<lambda>cells'.
          Inr (s\<lparr>y_heap := (y_input_data s, cells') # y_heap s\<rparr>)))"

text \<open>What the input tensor holds: the bytes that \<open>input_data\<close> points to.\<close>

definition input_floats_yolox :: "'f yolox_state \<Rightarrow> fault + 'f list" where
  "input_floats_yolox s =
     (case map_of (y_heap s) (y_input_data s) of
        None \<Rightarrow> Inl InvalidHandle
      | Some cells \<Rightarrow> tensor_floats cells (y_input_size s))"

definition PerformInference_yolox ::
  "real platform \<Rightarrow> real yolox_state \<Rightarrow> byte list \<Rightarrow> real list \<Rightarrow> int
     \<Rightarrow> fault + real yolox_state \<times> real list" where
  "PerformInference_yolox E s image_data output_array len =
     bindE (preprocess_yolox E s image_data) (\<lambda>s.
     through_api (y_ort s)
      (let (memory_info, w) = ort_CreateCpuMemoryInfo (y_world s) in
       bindE (ort_CreateTensorWithDataAsOrtValue memory_info 4 w) (\<lambda>(input_tensor, w).
       bindE (ort_ReleaseMemoryInfo memory_info w) (\<lambda>w.
       bindE (input_floats_yolox s) (\<lambda>input.
       bindE (ort_Run E (y_session s) input_tensor input w)
         (\<lambda>((output_tensor, out_data), w).
       if output_tensor = 0 then
         bindE (ort_ReleaseValue input_tensor w) (\<lambda>w.
         bindE (ort_ReleaseValue output_tensor w) (\<lambda>w.
         Inr (s\<lparr>y_world := w\<rparr>, output_array)))
       else
         bindE (ort_GetTensorTypeAndShape output_tensor w) (\<lambda>(rank, w).
         if rank > 3 then Inl OutOfBounds else
         bindE (ort_GetTensorMutableData output_tensor w) (\<lambda>w.
         bindE (memcpy_floats output_array out_data len) (\<lambda>output_array.
         bindE (ort_ReleaseValue input_tensor w) (\<lambda>w.
         bindE (ort_ReleaseValue output_tensor w) (\<lambda>w.
         Inr (s\<lparr>y_world := w\<rparr>, output_array))))))))))))"

subsection \<open>Well-formed worlds and loaded states\<close>

text \<open>
  In a world that was built by the API, every live handle is non-null and older than the
  next handle to be handed out, and no handle stands for two objects.
\<close>

definition wf_world :: "ort_world \<Rightarrow> bool" where
  "wf_world w \<longleftrightarrow>
     0 < next_handle w \<and> distinct (map fst (live w)) \<and>
     list_all (\<lambda>(h, r). 0 < h \<and> h < next_handle w) (live w)"

text \<open>
  The world after the runtime calls of a LoadModel that got through: the new
  environment \<open>e\<close>, the options \<open>e + 1\<close> created, configured and released again, and the
  new session \<open>e + 2\<close>. Nothing that was alive before is touched.
\<close>

definition world_after_load :: "ort_world \<Rightarrow> option_call list \<Rightarrow> string \<Rightarrow> ort_world" where
  "world_after_load w action path =
     (let e = next_handle w in
      \<lparr>next_handle = Suc (Suc (Suc e)),
       live = (Suc (Suc e), RSession e action path) # (e, REnv) # live w,
       calls = calls w @
         [CreateEnv e, DisableTelemetryEvents e, CreateSessionOptions (Suc e)] @
         map (ConfigureOptions (Suc e)) action @
         [CreateSession e path (Suc e) (Suc (Suc e)), ReleaseSessionOptions (Suc e),
          SessionGetInputName (Suc (Suc e)), SessionGetOutputName (Suc (Suc e))]\<rparr>)"

text \<open>
  A loaded state of the first plugin with input width \<open>w\<close> and height \<open>h\<close>: the API is
  initialised, the dimensions are stored, the buffer has \<open>w * h * 3\<close> elements and the
  session pointer is a live session.
\<close>

definition loaded_cv :: "'f cv_state \<Rightarrow> int \<Rightarrow> int \<Rightarrow> bool" where
  "loaded_cv s w h \<longleftrightarrow>
     ort s \<and> input_w s = w \<and> input_h s = h \<and> n_pixels s = w * h \<and>
     int_ok (w * h * 3) \<and> int (length (input_data s)) = w * h * 3 \<and>
     wf_world (world s) \<and> session_config (world s) (session s) \<noteq> None"

text \<open>
  The same for the second plugin: \<open>input_data\<close> points to an allocated block that holds
  at least the \<open>input_size\<close> bytes of the tensor.
\<close>

definition loaded_yolox :: "'f yolox_state \<Rightarrow> int \<Rightarrow> int \<Rightarrow> bool" where
  "loaded_yolox s w h \<longleftrightarrow>
     y_ort s \<and> y_input_w s = w \<and> y_input_h s = h \<and> y_n_pixels s = w * h \<and>
     0 \<le> w * h \<and> int_ok (w * h * 3 * 4) \<and> y_input_size s = w * h * 3 * 4 \<and>
     (case map_of (y_heap s) (y_input_data s) of
        None \<Rightarrow> False
      | Some cells \<Rightarrow> w * h * 3 \<le> int (length cells)) \<and>
     wf_world (y_world s) \<and> session_config (y_world s) (y_session s) \<noteq> None"

subsection \<open>A concrete platform and concrete runs\<close>

text \<open>
  Two providers, one model file that loads, and a graph that returns its input.
\<close>

definition demo_platform :: "real platform" where
  "demo_platform =
     \<lparr>available_providers = [''DmlExecutionProvider'', ''CPUExecutionProvider''],
      model_loads = (\<lambda>p. p = ''model.onnx''),
      model_input_name = (\<lambda>p. ''input''),
      model_output_name = (\<lambda>p. ''output''),
      model_output = (\<lambda>p x. Some x),
      model_output_rank = (\<lambda>p. 3),
      out_of_memory = (\<lambda>n. False),
      dml_key_first = False\<rparr>"

text \<open>The same platform with a graph that produces no output tensor.\<close>

definition silent_platform :: "real platform" where
  "silent_platform = demo_platform\<lparr>model_output := (\<lambda>p x. None)\<rparr>"

definition started_cv :: "real cv_state" where
  "started_cv = InitOrtAPI_cv demo_platform initial_cv"

definition started_yolox :: "real yolox_state" where
  "started_yolox = InitOrtAPI_yolox demo_platform initial_yolox"

text \<open>The state a function leaves, when it returns one.\<close>

definition state_of :: "fault + 'r \<times> 's \<Rightarrow> 's option" where
  "state_of r = (case r of Inl f \<Rightarrow> None | Inr (x, s) \<Rightarrow> Some s)"

text \<open>
  The first plugin after \<^verbatim>\<open>InitOrtAPI(); LoadModel("model.onnx", "CPUExecutionProvider",
  {2, 1})\<close>, and the second plugin after the same calls.
\<close>

definition demo_cv :: "real cv_state" where
  "demo_cv =
     \<lparr>input_w = 2, input_h = 1, n_pixels = 2, ort = True,
      provider_names = [''DmlExecutionProvider'', ''CPUExecutionProvider''],
      env = 1, session_options = 2, session = 3, input_name = ''input'',
      output_name = ''output'', input_data = replicate 6 0,
      world = world_after_load initial_world [] ''model.onnx''\<rparr>"

definition demo_yolox :: "real yolox_state" where
  "demo_yolox =
     \<lparr>y_input_w = 2, y_input_h = 1, y_n_pixels = 2, y_ort = True,
      y_provider_names = [''DmlExecutionProvider'', ''CPUExecutionProvider''],
      y_provider_count = 2, y_env = 1, y_session_options = 2, y_session = 3,
      y_input_name = ''input'', y_output_name = ''output'', y_input_data = 1,
      y_input_size = 24,
      y_heap = [(1, replicate 6 (Some 0) @ replicate 42 None)],
      y_next_block = 2,
      y_world = world_after_load initial_world [] ''model.onnx''\<rparr>"

text \<open>One row of two pixels, red-green-blue each.\<close>

definition demo_image :: "byte list" where
  "demo_image = [0, 51, 102, 153, 204, 255]"

text \<open>
  The first plugin after the further call \<^verbatim>\<open>PerformInference(demo_image, out, 6)\<close>: the
  buffer holds the planar quotients, the memory info 4 and the tensors 5 and 6 have come
  and gone.
\<close>

definition inferred_cv :: "real cv_state" where
  "inferred_cv =
     demo_cv\<lparr>input_data := [0, 3 / 5, 1 / 5, 4 / 5, 2 / 5, 1],
             world := \<lparr>next_handle = 7,
                       live = live (world demo_cv),
                       calls = calls (world demo_cv) @
                         [CreateCpuMemoryInfo 4, CreateTensorWithDataAsOrtValue 4 5,
                          ReleaseMemoryInfo 4, Run 3 5 6, GetTensorMutableData 6,
                          ReleaseValue 5, ReleaseValue 6]\<rparr>\<rparr>"


text \<open>What holds of the result of a call whenever the call returns.\<close>

definition post :: "fault + 'a \<Rightarrow> ('a \<Rightarrow> bool) \<Rightarrow> bool" where
  "post m Q \<longleftrightarrow> (\<forall>y. m = Inr y \<longrightarrow> Q y)"

section \<open>Auxiliary facts\<close>

lemmas ort_defs = through_api_def bindE_def ort_CreateEnv_def new_resource_def log_call_def
  ort_DisableTelemetryEvents_def resource_at_def ort_CreateSessionOptions_def
  ort_CreateSession_def ort_release_def ort_ReleaseSessionOptions_def
  ort_ReleaseSession_def ort_ReleaseEnv_def ort_ReleaseMemoryInfo_def ort_ReleaseValue_def
  ort_SessionGetInputName_def ort_SessionGetOutputName_def ort_CreateCpuMemoryInfo_def
  ort_CreateTensorWithDataAsOrtValue_def ort_Run_def ort_GetTensorMutableData_def
  ort_GetTensorTypeAndShape_def drop_resource_def

lemma bindE_Inr_iff: "bindE m f = Inr y \<longleftrightarrow> (\<exists>x. m = Inr x \<and> f x = Inr y)"
  by (cases m) (simp_all add: bindE_def)

lemma through_api_Inr_iff: "through_api a m = Inr y \<longleftrightarrow> a \<and> m = Inr y"
  by (simp add: through_api_def)

lemma post_Inl: "post (Inl e) Q"
  by (simp add: post_def)

lemma post_Inr: "Q y \<Longrightarrow> post (Inr y) Q"
  by (simp add: post_def)

lemma post_bindE: "(\<And>x. m = Inr x \<Longrightarrow> post (f x) Q) \<Longrightarrow> post (bindE m f) Q"
  by (cases m) (simp_all add: post_def bindE_def)

lemma post_if:
  "(c \<Longrightarrow> post a Q) \<Longrightarrow> (\<not> c \<Longrightarrow> post b Q) \<Longrightarrow> post (if c then a else b) Q"
  by simp

lemma post_through_api: "post m Q \<Longrightarrow> post (through_api a m) Q"
  by (simp add: post_def through_api_def)

lemma post_case_prod: "(\<And>a b. x = (a, b) \<Longrightarrow> post (f a b) Q) \<Longrightarrow> post (case_prod f x) Q"
  by (cases x) simp

lemma post_case_prod2:
  "(\<And>a b. x = (a, b) \<Longrightarrow> post (f a b c) Q) \<Longrightarrow> post (case_prod f x c) Q"
  by (cases x) simp

lemma post_Let: "post (f x) Q \<Longrightarrow> post (Let x f) Q"
  by simp

lemma post_case_option:
  "(x = None \<Longrightarrow> post a Q) \<Longrightarrow> (\<And>y. x = Some y \<Longrightarrow> post (f y) Q) \<Longrightarrow>
   post (case_option a f x) Q"
  by (cases x) simp_all

lemma post_case_sum:
  "(\<And>a. x = Inl a \<Longrightarrow> post (f a) Q) \<Longrightarrow> (\<And>b. x = Inr b \<Longrightarrow> post (g b) Q) \<Longrightarrow>
   post (case_sum f g x) Q"
  by (cases x) simp_all

lemmas post_rules = post_Inl post_bindE post_if post_through_api post_case_prod
  post_case_prod2 post_Let post_case_option post_case_sum

lemma wf_initial_world: "wf_world initial_world"
  by (simp add: wf_world_def initial_world_def)

lemma wf_lookup: "wf_world w \<Longrightarrow> map_of (live w) h = Some r \<Longrightarrow> 0 < h \<and> h < next_handle w"
  by (auto simp: wf_world_def list_all_iff dest!: map_of_SomeD)

lemma wf_lookup_None:
  "wf_world w \<Longrightarrow> h = 0 \<or> next_handle w \<le> h \<Longrightarrow> map_of (live w) h = None"
  using wf_lookup [of w h] by (cases "map_of (live w) h") auto

lemma map_of_filter_neq:
  "k \<noteq> h \<Longrightarrow> map_of (filter (\<lambda>(k', r). k' \<noteq> h) xs) k = map_of xs k"
  by (induction xs) auto

lemma filter_fresh:
  "wf_world w \<Longrightarrow> next_handle w \<le> h \<Longrightarrow> filter (\<lambda>(k, r). k \<noteq> h) (live w) = live w"
  by (auto simp: wf_world_def list_all_iff intro!: filter_True)

lemma wf_world_after_load: "wf_world w \<Longrightarrow> wf_world (world_after_load w action path)"
  by (auto simp: wf_world_def world_after_load_def Let_def list_all_iff)

subsection \<open>The loops\<close>

lemma planar_index_unique:
  fixes n p q c c' :: int
  assumes "0 \<le> p" "p < n" "0 \<le> q" "q < n" "c * n + p = c' * n + q"
  shows "p = q \<and> c = c'"
proof -
  have "(c * n + p) mod n = p" "(c' * n + q) mod n = q"
    using assms(1-4) by simp_all
  with assms(5) have pq: "p = q" by metis
  with assms have "c * n = c' * n" by simp
  with assms have "c = c'" by simp
  with pq show ?thesis by simp
qed

lemma store_channels_spec:
  assumes "0 \<le> p" "p < n" "0 \<le> ch" "3 * n \<le> 2147483647"
    "3 * n \<le> int (length image_data)" "3 * n \<le> int (length buf)"
  shows "\<exists>buf'. store_channels scale n image_data p ch buf = Inr buf' \<and>
           length buf' = length buf \<and>
           (\<forall>c. ch \<le> c \<and> c < 3 \<longrightarrow>
                buf' ! nat (c * n + p) = scale (image_data ! nat (p * 3 + c))) \<and>
           (\<forall>i. (\<forall>c. ch \<le> c \<and> c < 3 \<longrightarrow> i \<noteq> nat (c * n + p)) \<longrightarrow> buf' ! i = buf ! i)"
  using assms
proof (induction scale n image_data p ch buf rule: store_channels.induct)
  case (1 scale n image_data p ch buf)
  show ?case
  proof (cases "ch < 3")
    case False
    then show ?thesis
      by (subst store_channels.simps) (auto simp: n_channels_def)
  next
    case True
    let ?dst = "ch * n + p" and ?src = "p * 3 + ch"
    let ?buf1 = "buf[nat ?dst := scale (image_data ! nat ?src)]"
    have chn: "ch * n \<le> 2 * n" using True "1.prems" by (simp add: mult_right_mono)
    have chn0: "0 \<le> ch * n" using "1.prems" by simp
    have dst: "0 \<le> ?dst" "?dst < 3 * n" using chn chn0 "1.prems"(1,2) by linarith+
    have src: "0 \<le> ?src" "?src < 3 * n" using True "1.prems"(1,2,3) by linarith+
    have ok: "int_ok (ch * n)" "int_ok ?dst" "int_ok (p * 3)" "int_ok ?src"
      unfolding int_ok_def using dst src chn chn0 "1.prems"(1,2,4) by linarith+
    have step: "store_channels scale n image_data p ch buf =
                store_channels scale n image_data p (ch + 1) ?buf1"
      using True ok dst src "1.prems"
      by (subst store_channels.simps) (simp add: n_channels_def Let_def)
    have "\<exists>buf'. store_channels scale n image_data p (ch + 1) ?buf1 = Inr buf' \<and>
           length buf' = length ?buf1 \<and>
           (\<forall>c. ch + 1 \<le> c \<and> c < 3 \<longrightarrow>
                buf' ! nat (c * n + p) = scale (image_data ! nat (p * 3 + c))) \<and>
           (\<forall>i. (\<forall>c. ch + 1 \<le> c \<and> c < 3 \<longrightarrow> i \<noteq> nat (c * n + p)) \<longrightarrow> buf' ! i = ?buf1 ! i)"
      using True ok dst src "1.prems"
      by (intro "1.IH") (simp_all add: n_channels_def)
    then obtain buf' where b: "store_channels scale n image_data p (ch + 1) ?buf1 = Inr buf'"
      "length buf' = length ?buf1"
      "\<And>c. ch + 1 \<le> c \<Longrightarrow> c < 3 \<Longrightarrow> buf' ! nat (c * n + p) = scale (image_data ! nat (p * 3 + c))"
      "\<And>i. (\<forall>c. ch + 1 \<le> c \<and> c < 3 \<longrightarrow> i \<noteq> nat (c * n + p)) \<Longrightarrow> buf' ! i = ?buf1 ! i"
      by blast
    have distinct: "nat ?dst \<noteq> nat (c * n + p)" if "ch + 1 \<le> c" for c
    proof
      assume e: "nat ?dst = nat (c * n + p)"
      have "0 \<le> c * n" using that "1.prems"(1,2,3) by simp
      then have "0 \<le> c * n + p" using "1.prems"(1) by linarith
      with e dst(1) have "ch * n + p = c * n + p" by linarith
      then have "ch * n = c * n" by simp
      with "1.prems"(1,2) have "ch = c" by simp
      with that show False by simp
    qed
    have here: "buf' ! nat ?dst = scale (image_data ! nat ?src)"
    proof -
      have "buf' ! nat ?dst = ?buf1 ! nat ?dst" using distinct by (intro b(4)) auto
      also have "\<dots> = scale (image_data ! nat ?src)" using dst "1.prems" by simp
      finally show ?thesis .
    qed
    have written: "buf' ! nat (c * n + p) = scale (image_data ! nat (p * 3 + c))"
      if "ch \<le> c" "c < 3" for c
    proof (cases "c = ch")
      case True then show ?thesis using here by simp
    next
      case False then show ?thesis using that by (intro b(3)) auto
    qed
    have kept: "buf' ! i = buf ! i" if "\<forall>c. ch \<le> c \<and> c < 3 \<longrightarrow> i \<noteq> nat (c * n + p)" for i
    proof -
      have "buf' ! i = ?buf1 ! i" using that by (intro b(4)) auto
      moreover have "i \<noteq> nat ?dst" using that True by auto
      ultimately show ?thesis by simp
    qed
    show ?thesis using step b(1,2) written kept by auto
  qed
qed


lemma preprocess_pixels_spec:
  assumes "0 \<le> p" "3 * n \<le> 2147483647"
    "3 * n \<le> int (length image_data)" "3 * n \<le> int (length buf)"
  shows "\<exists>buf'. preprocess_pixels scale n image_data p buf = Inr buf' \<and>
           length buf' = length buf \<and>
           (\<forall>q c. p \<le> q \<and> q < n \<and> 0 \<le> c \<and> c < 3 \<longrightarrow>
                buf' ! nat (c * n + q) = scale (image_data ! nat (q * 3 + c))) \<and>
           (\<forall>i. (\<forall>q c. p \<le> q \<and> q < n \<and> 0 \<le> c \<and> c < 3 \<longrightarrow> i \<noteq> nat (c * n + q))
                \<longrightarrow> buf' ! i = buf ! i)"
  using assms
proof (induction scale n image_data p buf rule: preprocess_pixels.induct)
  case (1 scale n image_data p buf)
  show ?case
  proof (cases "p < n")
    case False
    then show ?thesis
      by (subst preprocess_pixels.simps) auto
  next
    case True
    from store_channels_spec [of p n 0 image_data buf scale] True "1.prems"
    obtain buf1 where b1: "store_channels scale n image_data p 0 buf = Inr buf1"
      "length buf1 = length buf"
      "\<And>c. 0 \<le> c \<Longrightarrow> c < 3 \<Longrightarrow> buf1 ! nat (c * n + p) = scale (image_data ! nat (p * 3 + c))"
      "\<And>i. (\<forall>c. 0 \<le> c \<and> c < 3 \<longrightarrow> i \<noteq> nat (c * n + p)) \<Longrightarrow> buf1 ! i = buf ! i"
      by auto
    have step: "preprocess_pixels scale n image_data p buf =
                preprocess_pixels scale n image_data (p + 1) buf1"
      using True b1(1) by (subst preprocess_pixels.simps) simp
    have "\<exists>buf'. preprocess_pixels scale n image_data (p + 1) buf1 = Inr buf' \<and>
           length buf' = length buf1 \<and>
           (\<forall>q c. p + 1 \<le> q \<and> q < n \<and> 0 \<le> c \<and> c < 3 \<longrightarrow>
                buf' ! nat (c * n + q) = scale (image_data ! nat (q * 3 + c))) \<and>
           (\<forall>i. (\<forall>q c. p + 1 \<le> q \<and> q < n \<and> 0 \<le> c \<and> c < 3 \<longrightarrow> i \<noteq> nat (c * n + q))
                \<longrightarrow> buf' ! i = buf1 ! i)"
      using True b1(1,2) "1.prems" by (intro "1.IH") simp_all
    then obtain buf' where b: "preprocess_pixels scale n image_data (p + 1) buf1 = Inr buf'"
      "length buf' = length buf1"
      "\<And>q c. p + 1 \<le> q \<Longrightarrow> q < n \<Longrightarrow> 0 \<le> c \<Longrightarrow> c < 3 \<Longrightarrow>
          buf' ! nat (c * n + q) = scale (image_data ! nat (q * 3 + c))"
      "\<And>i. (\<forall>q c. p + 1 \<le> q \<and> q < n \<and> 0 \<le> c \<and> c < 3 \<longrightarrow> i \<noteq> nat (c * n + q))
          \<Longrightarrow> buf' ! i = buf1 ! i"
      by blast
    have nat_inj: "c * n + q = c' * n + q'"
      if "nat (c * n + q) = nat (c' * n + q')" "0 \<le> c" "0 \<le> c'" "0 \<le> q" "0 \<le> q'"
      for c q c' q' :: int
    proof -
      have "0 \<le> c * n" "0 \<le> c' * n" using that True "1.prems"(1) by simp_all
      then have "0 \<le> c * n + q" "0 \<le> c' * n + q'" using that by linarith+
      with that(1) show ?thesis by linarith
    qed
    have other_pixel: "nat (c * n + p) \<noteq> nat (c' * n + q)"
      if "0 \<le> c" "p + 1 \<le> q" "q < n" "0 \<le> c'" for c c' q
    proof
      assume "nat (c * n + p) = nat (c' * n + q)"
      then have "c * n + p = c' * n + q"
        using that "1.prems"(1) by (intro nat_inj) simp_all
      then have "p = q"
        using planar_index_unique [of p n q c c'] that True "1.prems"(1) by simp
      with that show False by simp
    qed
    have this_pixel: "buf' ! nat (c * n + p) = scale (image_data ! nat (p * 3 + c))"
      if "0 \<le> c" "c < 3" for c
    proof -
      have "buf' ! nat (c * n + p) = buf1 ! nat (c * n + p)"
        using other_pixel that by (intro b(4)) blast
      then show ?thesis using b1(3) that by simp
    qed
    have written: "buf' ! nat (c * n + q) = scale (image_data ! nat (q * 3 + c))"
      if "p \<le> q" "q < n" "0 \<le> c" "c < 3" for q c
    proof (cases "q = p")
      case True then show ?thesis using this_pixel that by simp
    next
      case False then show ?thesis using that by (intro b(3)) simp_all
    qed
    have kept: "buf' ! i = buf ! i"
      if "\<forall>q c. p \<le> q \<and> q < n \<and> 0 \<le> c \<and> c < 3 \<longrightarrow> i \<noteq> nat (c * n + q)" for i
    proof -
      have "buf' ! i = buf1 ! i" using that by (intro b(4)) auto
      moreover have "buf1 ! i = buf ! i" using that True by (intro b1(4)) auto
      ultimately show ?thesis by simp
    qed
    show ?thesis using step b(1,2) b1(2) written kept by auto
  qed
qed

text \<open>Every cell below \<open>3 * n\<close> is the cell of one pixel and one channel.\<close>

lemma planar_index_cover:
  fixes n :: int
  assumes "int i < 3 * n"
  shows "\<exists>p c. 0 \<le> p \<and> p < n \<and> 0 \<le> c \<and> c < 3 \<and> i = nat (c * n + p)"
proof -
  have n: "0 < n" using assms by linarith
  let ?c = "int i div n" and ?p = "int i mod n"
  have "0 \<le> ?p" "?p < n" using n by simp_all
  moreover have "0 \<le> ?c" using n by (simp add: pos_imp_zdiv_nonneg_iff)
  moreover have "?c < 3"
  proof (rule ccontr)
    assume "\<not> ?c < 3"
    then have "3 * n \<le> ?c * n" using n by (intro mult_right_mono) simp_all
    moreover have "int i = ?c * n + ?p" by simp
    ultimately show False using assms \<open>0 \<le> ?p\<close> by linarith
  qed
  moreover have "i = nat (?c * n + ?p)" by simp
  ultimately show ?thesis by blast
qed

subsection \<open>LoadModel of the first plugin\<close>

lemma ort_configure_all_spec:
  assumes "map_of (live w) opts = Some (RSessionOptions cfg)"
  shows "\<exists>w'. ort_configure_all opts cs w = Inr w' \<and>
           map_of (live w') opts = Some (RSessionOptions (cfg @ cs)) \<and>
           filter (\<lambda>(k, r). k \<noteq> opts) (live w') = filter (\<lambda>(k, r). k \<noteq> opts) (live w) \<and>
           (\<forall>k. k \<noteq> opts \<longrightarrow> map_of (live w') k = map_of (live w) k) \<and>
           next_handle w' = next_handle w \<and>
           calls w' = calls w @ map (ConfigureOptions opts) cs"
  using assms
proof (induction cs arbitrary: w cfg)
  case Nil
  then show ?case by simp
next
  case (Cons c cs)
  let ?w1 = "log_call (ConfigureOptions opts c)
               (w\<lparr>live := (opts, RSessionOptions (cfg @ [c])) # live w\<rparr>)"
  have 1: "ort_configure opts c w = Inr ?w1"
    using Cons.prems by (simp add: ort_configure_def resource_at_def)
  have "map_of (live ?w1) opts = Some (RSessionOptions (cfg @ [c]))"
    by (simp add: log_call_def)
  from Cons.IH [OF this] obtain w' where w':
    "ort_configure_all opts cs ?w1 = Inr w'"
    "map_of (live w') opts = Some (RSessionOptions ((cfg @ [c]) @ cs))"
    "filter (\<lambda>(k, r). k \<noteq> opts) (live w') = filter (\<lambda>(k, r). k \<noteq> opts) (live ?w1)"
    "\<forall>k. k \<noteq> opts \<longrightarrow> map_of (live w') k = map_of (live ?w1) k"
    "next_handle w' = next_handle ?w1"
    "calls w' = calls ?w1 @ map (ConfigureOptions opts) cs"
    by blast
  show ?case
    using 1 w' by (simp add: bindE_def log_call_def)
qed

lemma LoadModel_cv_unknown:
  assumes "first_action sel (execution_provider_actions E) = None" "ort s"
  shows "LoadModel_cv E s path sel dims =
     Inr (Literal ''Unknown execution provider specified.'',
          s\<lparr>env := next_handle (world s), session_options := Suc (next_handle (world s)),
            world := \<lparr>next_handle = Suc (Suc (next_handle (world s))),
                      live = (Suc (next_handle (world s)), RSessionOptions []) #
                             (next_handle (world s), REnv) # live (world s),
                      calls = calls (world s) @
                        [CreateEnv (next_handle (world s)),
                         DisableTelemetryEvents (next_handle (world s)),
                         CreateSessionOptions (Suc (next_handle (world s)))]\<rparr>\<rparr>)"
  using assms by (simp add: LoadModel_cv_def ort_defs Let_def)

lemma LoadModel_cv_known:
  assumes act: "first_action sel (execution_provider_actions E) = Some action"
    and "ort s" and wf: "wf_world (world s)"
  shows "LoadModel_cv E s path sel (w, h) =
     (if \<not> model_loads E path then Inl InvalidHandle
      else if \<not> int_ok (w * h) \<or> \<not> int_ok (w * h * 3) then Inl SignedOverflow
      else let e = next_handle (world s);
               s1 = s\<lparr>env := e, session_options := Suc e, session := Suc (Suc e),
                      input_name := model_input_name E path,
                      output_name := model_output_name E path,
                      input_w := w, input_h := h, n_pixels := w * h,
                      world := world_after_load (world s) action path\<rparr>
           in case vector_resize E (input_data s) (w * h * 3) of
                Inl ex \<Rightarrow> Inl DanglingPointer
              | Inr v \<Rightarrow> Inr (Literal ''Model loaded successfully.'', s1\<lparr>input_data := v\<rparr>))"
proof -
  let ?e = "next_handle (world s)"
  let ?w1 = "log_call (DisableTelemetryEvents ?e) (log_call (CreateEnv ?e)
        ((world s)\<lparr>next_handle := Suc ?e, live := (?e, REnv) # live (world s)\<rparr>))"
  let ?w2 = "log_call (CreateSessionOptions (Suc ?e))
        (?w1\<lparr>next_handle := Suc (Suc ?e),
               live := (Suc ?e, RSessionOptions []) # (?e, REnv) # live (world s)\<rparr>)"
  have "map_of (live ?w2) (Suc ?e) = Some (RSessionOptions [])"
    by (simp add: log_call_def)
  from ort_configure_all_spec [OF this, of action] obtain w3 where w3:
    "ort_configure_all (Suc ?e) action ?w2 = Inr w3"
    "map_of (live w3) (Suc ?e) = Some (RSessionOptions action)"
    "filter (\<lambda>(k, r). k \<noteq> Suc ?e) (live w3) = filter (\<lambda>(k, r). k \<noteq> Suc ?e) (live ?w2)"
    "\<forall>k. k \<noteq> Suc ?e \<longrightarrow> map_of (live w3) k = map_of (live ?w2) k"
    "next_handle w3 = next_handle ?w2"
    "calls w3 = calls ?w2 @ map (ConfigureOptions (Suc ?e)) action"
    by auto
  have e3: "map_of (live w3) ?e = Some REnv"
    using w3(4) by (simp add: log_call_def)
  have none0: "map_of (live (world s)) 0 = None"
    using wf_lookup_None [OF wf] by simp
  have pos: "0 < ?e" using wf by (simp add: wf_world_def)
  have zero3: "map_of (filter (\<lambda>(k, r). k \<noteq> Suc ?e) (live w3)) 0 = None"
    using w3(3) none0 pos filter_fresh [OF wf, of "Suc ?e"] by (simp add: log_call_def)
  have flt: "filter (\<lambda>(k, r). k \<noteq> Suc ?e) (live w3) = (?e, REnv) # live (world s)"
    using w3(3) filter_fresh [OF wf, of "Suc ?e"] by (simp add: log_call_def)
  have w3eq: "w3 = w3\<lparr>next_handle := Suc (Suc ?e)\<rparr>" using w3(5) by (simp add: log_call_def)
  show ?thesis
    using assms(1,2) w3(1,2,5,6) e3 zero3 flt
    apply (simp add: LoadModel_cv_def through_api_def Let_def ort_CreateEnv_def
        new_resource_def ort_DisableTelemetryEvents_def resource_at_def
        ort_CreateSessionOptions_def split_beta)
    apply (simp add: bindE_def ort_CreateSession_def resource_at_def new_resource_def
        log_call_def Let_def ort_ReleaseSessionOptions_def ort_release_def drop_resource_def
        ort_SessionGetInputName_def ort_SessionGetOutputName_def n_channels_def
        world_after_load_def split: sum.splits)
    done
qed

text \<open>A LoadModel that reports success leaves a loaded state.\<close>

lemma vector_resize_Inr:
  "vector_resize E v n = Inr v' \<Longrightarrow>
   0 \<le> n \<and> int (length v') = n \<and> v' = take (nat n) v @ replicate (nat n - length v) 0"
  by (auto simp: vector_resize_def split: if_splits)

lemma session_config_after_load:
  "session_config (world_after_load w action path) (Suc (Suc (next_handle w))) = Some action"
  by (simp add: session_config_def resource_at_def world_after_load_def Let_def)

lemma LoadModel_cv_Inr_ort: "LoadModel_cv E s path sel dims = Inr r \<Longrightarrow> ort s"
  by (simp add: LoadModel_cv_def through_api_Inr_iff)

lemma LoadModel_cv_loaded:
  assumes wf: "wf_world (world s)"
    and load: "LoadModel_cv E s path sel (w, h) = Inr (Literal ''Model loaded successfully.'', s')"
  shows "loaded_cv s' w h"
proof -
  have o: "ort s" using load by (rule LoadModel_cv_Inr_ort)
  show ?thesis
  proof (cases "first_action sel (execution_provider_actions E)")
    case None
    from LoadModel_cv_unknown [OF None o, of path "(w, h)"] load show ?thesis by simp
  next
    case (Some action)
    from load LoadModel_cv_known [OF Some o wf, of path w h]
    obtain v where v: "vector_resize E (input_data s) (w * h * 3) = Inr v"
      and ok: "int_ok (w * h * 3)"
      and s': "s' = s\<lparr>env := next_handle (world s), session_options := Suc (next_handle (world s)),
                      session := Suc (Suc (next_handle (world s))),
                      input_name := model_input_name E path,
                      output_name := model_output_name E path,
                      input_w := w, input_h := h, n_pixels := w * h,
                      world := world_after_load (world s) action path, input_data := v\<rparr>"
      by (auto simp: Let_def split: if_splits sum.splits)
    from vector_resize_Inr [OF v] have "int (length v) = w * h * 3" by blast
    then show ?thesis
      using o ok wf s' by (simp add: loaded_cv_def wf_world_after_load session_config_after_load)
  qed
qed

subsection \<open>PerformInference of the first plugin\<close>

text \<open>
  Whenever PerformInference returns, the state it leaves is the old one with the
  preprocessed buffer and a new world.
\<close>

lemma PerformInference_cv_post:
  "post (PerformInference_cv E s image_data output_array len)
     (\<lambda>(s', out). \<exists>buf w.
        preprocess_pixels byte_div_255 (n_pixels s) image_data 0 (input_data s) = Inr buf \<and>
        s' = s\<lparr>input_data := buf, world := w\<rparr>)"
  unfolding PerformInference_cv_def
  by (intro post_rules post_Inr) auto

lemma PerformInference_cv_buffer:
  assumes "PerformInference_cv E s image_data output_array len = Inr (s', out)"
    and "preprocess_pixels byte_div_255 (n_pixels s) image_data 0 (input_data s) = Inr buf"
  shows "input_data s' = buf"
  using PerformInference_cv_post [of E s image_data output_array len] assms
  by (auto simp: post_def)

subsection \<open>LoadModel of the second plugin\<close>

lemma LoadModel_yolox_spec:
  assumes "y_ort s" and wf: "wf_world (y_world s)"
  shows "LoadModel_yolox E s path sel (w, h) =
     (if \<not> model_loads E path then Inl InvalidHandle
      else if \<not> int_ok (w * h) \<or> \<not> int_ok (w * h * 3) \<or> \<not> int_ok (w * h * 3 * 4)
        then Inl SignedOverflow
      else let e = next_handle (y_world s);
               s1 = s\<lparr>y_env := e, y_session_options := Suc e, y_session := Suc (Suc e),
                      y_input_name := model_input_name E path,
                      y_output_name := model_output_name E path,
                      y_input_w := w, y_input_h := h, y_n_pixels := w * h,
                      y_input_size := w * h * 3 * 4\<rparr>
           in bindE (malloc_input E (y_next_block s) (w * h * 3 * 4)) (\<lambda>(p, cells).
              Inr (fst (add_provider_yolox sel),
                   s1\<lparr>y_input_data := p,
                      y_heap := (if p = 0 then y_heap s else (p, cells) # y_heap s),
                      y_next_block := (if p = 0 then y_next_block s else Suc (y_next_block s)),
                      y_world := world_after_load (y_world s) (snd (add_provider_yolox sel))
                                   path\<rparr>)))"
proof -
  let ?e = "next_handle (y_world s)"
  let ?action = "snd (add_provider_yolox sel)"
  let ?w1 = "log_call (DisableTelemetryEvents ?e) (log_call (CreateEnv ?e)
        ((y_world s)\<lparr>next_handle := Suc ?e, live := (?e, REnv) # live (y_world s)\<rparr>))"
  let ?w2 = "log_call (CreateSessionOptions (Suc ?e))
        (?w1\<lparr>next_handle := Suc (Suc ?e),
               live := (Suc ?e, RSessionOptions []) # (?e, REnv) # live (y_world s)\<rparr>)"
  have "map_of (live ?w2) (Suc ?e) = Some (RSessionOptions [])"
    by (simp add: log_call_def)
  from ort_configure_all_spec [OF this, of ?action] obtain w3 where w3:
    "ort_configure_all (Suc ?e) ?action ?w2 = Inr w3"
    "map_of (live w3) (Suc ?e) = Some (RSessionOptions ?action)"
    "filter (\<lambda>(k, r). k \<noteq> Suc ?e) (live w3) = filter (\<lambda>(k, r). k \<noteq> Suc ?e) (live ?w2)"
    "\<forall>k. k \<noteq> Suc ?e \<longrightarrow> map_of (live w3) k = map_of (live ?w2) k"
    "next_handle w3 = next_handle ?w2"
    "calls w3 = calls ?w2 @ map (ConfigureOptions (Suc ?e)) ?action"
    by auto
  have e3: "map_of (live w3) ?e = Some REnv"
    using w3(4) by (simp add: log_call_def)
  have none0: "map_of (live (y_world s)) 0 = None"
    using wf_lookup_None [OF wf] by simp
  have pos: "0 < ?e" using wf by (simp add: wf_world_def)
  have zero3: "map_of (filter (\<lambda>(k, r). k \<noteq> Suc ?e) (live w3)) 0 = None"
    using w3(3) none0 pos filter_fresh [OF wf, of "Suc ?e"] by (simp add: log_call_def)
  have flt: "filter (\<lambda>(k, r). k \<noteq> Suc ?e) (live w3) = (?e, REnv) # live (y_world s)"
    using w3(3) filter_fresh [OF wf, of "Suc ?e"] by (simp add: log_call_def)
  show ?thesis
    using assms(1) w3(1,2,5,6) e3 zero3 flt
    apply (simp add: LoadModel_yolox_def through_api_def Let_def ort_CreateEnv_def
        new_resource_def ort_DisableTelemetryEvents_def resource_at_def
        ort_CreateSessionOptions_def split_beta)
    apply (simp add: bindE_def ort_CreateSession_def resource_at_def new_resource_def
        log_call_def Let_def ort_ReleaseSessionOptions_def ort_release_def drop_resource_def
        ort_SessionGetInputName_def ort_SessionGetOutputName_def n_channels_def
        sizeof_float_def world_after_load_def split_beta split: sum.splits)
    done
qed

subsection \<open>PerformInference of the second plugin\<close>

lemma PerformInference_yolox_post:
  "post (PerformInference_yolox E s image_data output_array len)
     (\<lambda>(s', out). \<exists>s1 w. preprocess_yolox E s image_data = Inr s1 \<and> s' = s1\<lparr>y_world := w\<rparr>)"
  unfolding PerformInference_yolox_def
  by (intro post_rules post_Inr) auto

lemma input_floats_yolox_world:
  "input_floats_yolox (s\<lparr>y_world := w\<rparr>) = input_floats_yolox s"
  by (simp add: input_floats_yolox_def split: option.splits)

lemma PerformInference_yolox_buffer:
  assumes "PerformInference_yolox E s image_data output_array len = Inr (s', out)"
    and "preprocess_yolox E s image_data = Inr s1"
  shows "input_floats_yolox s' = input_floats_yolox s1"
  using PerformInference_yolox_post [of E s image_data output_array len] assms
  by (auto simp: post_def input_floats_yolox_world)

subsection \<open>The concrete runs\<close>

lemma started_cv_simps:
  "ort started_cv" "world started_cv = initial_world" "input_data started_cv = []"
  "session started_cv = 0" "env started_cv = 0"
  "provider_names started_cv = [''DmlExecutionProvider'', ''CPUExecutionProvider'']"
  by (simp_all add: started_cv_def InitOrtAPI_cv_def initial_cv_def demo_platform_def)

lemma started_yolox_simps:
  "y_ort started_yolox" "y_world started_yolox = initial_world"
  "y_next_block started_yolox = 1" "y_heap started_yolox = []"
  "y_provider_names started_yolox = [''DmlExecutionProvider'', ''CPUExecutionProvider'']"
  "y_provider_count started_yolox = 2"
  by (simp_all add: started_yolox_def InitOrtAPI_yolox_def initial_yolox_def demo_platform_def
      to_int_def)

lemma demo_platform_simps:
  "model_loads demo_platform ''model.onnx''" "\<not> out_of_memory demo_platform n"
  "\<not> dml_key_first demo_platform" "model_input_name demo_platform p = ''input''"
  "model_output_name demo_platform p = ''output''"
  by (simp_all add: demo_platform_def)

subsection \<open>The layout of the preprocessed buffer\<close>

lemma to_size_t_id: "0 \<le> x \<Longrightarrow> int_ok x \<Longrightarrow> to_size_t x = x"
  by (simp add: to_size_t_def int_ok_def)

lemma layout_cv:
  assumes "loaded_cv s w h" and "w * h * 3 \<le> int (length image_data)"
  shows "\<exists>buf. preprocess_pixels byte_div_255 (n_pixels s) image_data 0 (input_data s)
                 = Inr buf \<and>
           int (length buf) = w * h * 3 \<and>
           (\<forall>p c. 0 \<le> p \<and> p < w * h \<and> 0 \<le> c \<and> c < 3 \<longrightarrow>
              buf ! nat (c * (w * h) + p) = byte_div_255 (image_data ! nat (p * 3 + c))) \<and>
           (\<forall>i<length buf. \<exists>p c. 0 \<le> p \<and> p < w * h \<and> 0 \<le> c \<and> c < 3 \<and>
              i = nat (c * (w * h) + p))"
proof -
  from assms(1) have n: "n_pixels s = w * h" and len: "int (length (input_data s)) = w * h * 3"
    and ok: "int_ok (w * h * 3)"
    by (simp_all add: loaded_cv_def)
  have "3 * (w * h) \<le> 2147483647" using ok by (simp add: int_ok_def)
  moreover have "3 * (w * h) \<le> int (length image_data)" using assms(2) by simp
  moreover have "3 * (w * h) \<le> int (length (input_data s))" using len by simp
  ultimately obtain buf where buf:
    "preprocess_pixels byte_div_255 (w * h) image_data 0 (input_data s) = Inr buf"
    "length buf = length (input_data s)"
    "\<forall>q c. 0 \<le> q \<and> q < w * h \<and> 0 \<le> c \<and> c < 3 \<longrightarrow>
        buf ! nat (c * (w * h) + q) = byte_div_255 (image_data ! nat (q * 3 + c))"
    using preprocess_pixels_spec [of 0 "w * h" image_data "input_data s" byte_div_255]
    by auto
  have "\<exists>p c. 0 \<le> p \<and> p < w * h \<and> 0 \<le> c \<and> c < 3 \<and> i = nat (c * (w * h) + p)"
    if "i < length buf" for i
    using that buf(2) len by (intro planar_index_cover) simp
  then show ?thesis using buf len n by auto
qed

lemma preprocess_yolox_world:
  "preprocess_yolox E s image_data = Inr s' \<Longrightarrow>
   y_world s' = y_world s \<and> y_ort s' = y_ort s \<and> y_session s' = y_session s \<and>
   y_input_size s' = y_input_size s \<and> y_input_data s' = y_input_data s"
  by (auto simp: preprocess_yolox_def bindE_Inr_iff split: if_splits option.splits)

lemma layout_yolox_aux:
  assumes n: "y_n_pixels s = n" and n0: "0 \<le> n" and ok: "int_ok (n * 3 * 4)"
    and size: "y_input_size s = n * 3 * 4"
    and cells: "map_of (y_heap s) (y_input_data s) = Some cells" "n * 3 \<le> int (length cells)"
    and img: "n * 3 \<le> int (length image_data)"
  shows "\<exists>s' buf. preprocess_yolox E s image_data = Inr s' \<and>
           input_floats_yolox s' = Inr buf \<and>
           int (length buf) = n * 3 \<and>
           (\<forall>p c. 0 \<le> p \<and> p < n \<and> 0 \<le> c \<and> c < 3 \<longrightarrow>
              buf ! nat (c * n + p) = byte_div_255 (image_data ! nat (p * 3 + c))) \<and>
           (\<forall>i<length buf. \<exists>p c. 0 \<le> p \<and> p < n \<and> 0 \<le> c \<and> c < 3 \<and>
              i = nat (c * n + p))"
proof -
  have "to_size_t (n * 3 * 4) = n * 3 * 4"
    using ok n0 by (intro to_size_t_id) simp_all
  then have words: "nat (to_size_t (y_input_size s) div sizeof_float) = nat (n * 3)"
    using size by (simp add: sizeof_float_def mult.commute)
  have cover: "\<exists>p c. 0 \<le> p \<and> p < n \<and> 0 \<le> c \<and> c < 3 \<and> i = nat (c * n + p)"
    if "i < nat (n * 3)" for i
    using that by (intro planar_index_cover) simp
  show ?thesis
  proof (cases "n = 0")
    case True
    have "preprocess_yolox E s image_data = Inr s"
      using True n by (simp add: preprocess_yolox_def)
    moreover have "input_floats_yolox s = Inr []"
      using True cells words by (simp add: input_floats_yolox_def tensor_floats_def Let_def)
    ultimately show ?thesis using True by auto
  next
    case False
    with n0 have pos: "0 < n" by simp
    have "3 * n \<le> 2147483647" using ok n0 by (simp add: int_ok_def)
    moreover have "3 * n \<le> int (length image_data)" using img by simp
    moreover have "3 * n \<le> int (length cells)" using cells(2) by simp
    ultimately obtain cells' where c':
      "preprocess_pixels (\<lambda>b. Some (byte_div_255 b)) n image_data 0 cells = Inr cells'"
      "length cells' = length cells"
      "\<forall>q c. 0 \<le> q \<and> q < n \<and> 0 \<le> c \<and> c < 3 \<longrightarrow>
          cells' ! nat (c * n + q) = Some (byte_div_255 (image_data ! nat (q * 3 + c)))"
      using preprocess_pixels_spec [of 0 n image_data cells "\<lambda>b. Some (byte_div_255 b)"]
      by auto
    let ?s' = "s\<lparr>y_heap := (y_input_data s, cells') # y_heap s\<rparr>"
    let ?buf = "map the (take (nat (n * 3)) cells')"
    have pre: "preprocess_yolox E s image_data = Inr ?s'"
      using pos n cells(1) c'(1) by (simp add: preprocess_yolox_def bindE_def)
    have len: "nat (n * 3) \<le> length cells'" using c'(2) cells(2) by simp
    have some: "cells' ! i \<noteq> None" if "i < nat (n * 3)" for i
    proof -
      from cover [OF that] obtain p c where "0 \<le> p" "p < n" "0 \<le> c" "c < 3"
        "i = nat (c * n + p)" by blast
      then show ?thesis using c'(3) by simp
    qed
    have noNone: "None \<notin> set (take (nat (n * 3)) cells')"
    proof
      assume "None \<in> set (take (nat (n * 3)) cells')"
      then obtain i where "i < length (take (nat (n * 3)) cells')"
        "take (nat (n * 3)) cells' ! i = None"
        by (auto simp: in_set_conv_nth)
      then show False using some [of i] len by simp
    qed
    have fl: "input_floats_yolox ?s' = Inr ?buf"
      using words len noNone by (simp add: input_floats_yolox_def tensor_floats_def Let_def)
    have val: "?buf ! nat (c * n + p) = byte_div_255 (image_data ! nat (p * 3 + c))"
      if "0 \<le> p" "p < n" "0 \<le> c" "c < 3" for p c
    proof -
      have "c * n \<le> 2 * n" using that pos by (intro mult_right_mono) simp_all
      then have "c * n + p < n * 3" using that by linarith
      moreover have "0 \<le> c * n" using that pos by simp
      ultimately have "nat (c * n + p) < nat (n * 3)" using that by linarith
      then have "?buf ! nat (c * n + p) = the (cells' ! nat (c * n + p))"
        using len by simp
      then show ?thesis using c'(3) that by simp
    qed
    have "int (length ?buf) = n * 3" using len n0 by simp
    moreover have "\<forall>i<length ?buf. \<exists>p c. 0 \<le> p \<and> p < n \<and> 0 \<le> c \<and> c < 3 \<and>
              i = nat (c * n + p)"
      using cover len by simp
    ultimately show ?thesis using pre fl val by blast
  qed
qed

lemma layout_yolox:
  assumes "loaded_yolox s w h" and "w * h * 3 \<le> int (length image_data)"
  shows "\<exists>s' buf. preprocess_yolox E s image_data = Inr s' \<and>
           input_floats_yolox s' = Inr buf \<and>
           int (length buf) = w * h * 3 \<and>
           (\<forall>p c. 0 \<le> p \<and> p < w * h \<and> 0 \<le> c \<and> c < 3 \<longrightarrow>
              buf ! nat (c * (w * h) + p) = byte_div_255 (image_data ! nat (p * 3 + c))) \<and>
           (\<forall>i<length buf. \<exists>p c. 0 \<le> p \<and> p < w * h \<and> 0 \<le> c \<and> c < 3 \<and>
              i = nat (c * (w * h) + p))"
proof -
  from assms(1) obtain cells where cells: "map_of (y_heap s) (y_input_data s) = Some cells"
    "w * h * 3 \<le> int (length cells)"
    by (auto simp: loaded_yolox_def split: option.splits)
  from assms(1) have "y_n_pixels s = w * h" "0 \<le> w * h" "int_ok (w * h * 3 * 4)"
    "y_input_size s = w * h * 3 * 4"
    by (simp_all add: loaded_yolox_def)
  from layout_yolox_aux [OF this cells assms(2)] show ?thesis .
qed

lemma demo_cv_loaded: "loaded_cv demo_cv 2 1"
  by (simp add: loaded_cv_def demo_cv_def int_ok_def wf_initial_world wf_world_after_load)
    (simp add: session_config_def resource_at_def world_after_load_def initial_world_def)

lemma demo_yolox_loaded: "loaded_yolox demo_yolox 2 1"
  by (simp add: loaded_yolox_def demo_yolox_def int_ok_def wf_initial_world wf_world_after_load)
    (simp add: session_config_def resource_at_def world_after_load_def initial_world_def)

lemma demo_cv_reached:
  "LoadModel_cv demo_platform started_cv ''model.onnx'' ''CPUExecutionProvider'' (2, 1) =
     Inr (Literal ''Model loaded successfully.'', demo_cv)"
proof -
  have "first_action ''CPUExecutionProvider'' (execution_provider_actions demo_platform) = Some []"
    by (simp add: execution_provider_actions_def demo_platform_simps)
  from LoadModel_cv_known [OF this, of started_cv "''model.onnx''" 2 1]
  show ?thesis
    by (simp add: started_cv_simps wf_initial_world demo_platform_simps int_ok_def
        vector_resize_def Let_def)
      (simp add: started_cv_def InitOrtAPI_cv_def initial_cv_def demo_cv_def demo_platform_def
        initial_world_def)
qed

lemma demo_yolox_reached:
  "LoadModel_yolox demo_platform started_yolox ''model.onnx'' ''CPUExecutionProvider'' (2, 1) =
     Inr (1, demo_yolox)"
  by (simp add: LoadModel_yolox_spec started_yolox_simps wf_initial_world)
    (simp add: demo_platform_simps int_ok_def malloc_input_def to_size_t_def sizeof_pointer_def
      sizeof_float_def bindE_def add_provider_yolox_def Let_def started_yolox_def
      InitOrtAPI_yolox_def initial_yolox_def demo_yolox_def demo_platform_def to_int_def
      initial_world_def)

lemma demo_preprocess:
  "preprocess_pixels byte_div_255 2 demo_image 0 (replicate 6 0)
     = Inr [0, 3 / 5, 1 / 5, 4 / 5, 2 / 5, 1]"
proof -
  have r: "replicate 6 (0::real) = [0, 0, 0, 0, 0, 0]"
    by (simp add: numeral_eq_Suc)
  have p0: "store_channels byte_div_255 2 demo_image 0 0 [0, 0, 0, 0, 0, 0]
              = Inr [0, 0, 1 / 5, 0, 2 / 5, 0]"
    by (simp add: store_channels.simps demo_image_def byte_div_255_def n_channels_def
        int_ok_def Let_def)
  have p1: "store_channels byte_div_255 2 demo_image 1 0
              [0, 0, 1 / 5, 0, 2 / 5, 0] = Inr [0, 3 / 5, 1 / 5, 4 / 5, 2 / 5, 1]"
    by (simp add: store_channels.simps demo_image_def byte_div_255_def n_channels_def
        int_ok_def Let_def)
  show ?thesis
    unfolding r
    by (subst preprocess_pixels.simps, simp add: p0)
      (subst preprocess_pixels.simps, simp add: p1, subst preprocess_pixels.simps, simp)
qed

lemma inferred_cv_reached:
  "PerformInference_cv demo_platform demo_cv demo_image (replicate 6 0) 6 =
     Inr (inferred_cv, [0, 3 / 5, 1 / 5, 4 / 5, 2 / 5, 1])"
proof -
  have pre: "preprocess_pixels byte_div_255 (n_pixels demo_cv) demo_image 0
               (input_data demo_cv) = Inr [0, 3 / 5, 1 / 5, 4 / 5, 2 / 5, 1]"
    using demo_preprocess by (simp add: demo_cv_def)
  show ?thesis
    unfolding PerformInference_cv_def pre
    by (simp add: demo_cv_def world_after_load_def initial_world_def ort_defs Let_def
        inferred_cv_def memcpy_floats_def demo_platform_def)
qed

section \<open>The claims\<close>

subsection \<open>The provider registry\<close>

text \<open>
  Claim C10. Before InitOrtAPI has been called, GetProviderCount returns 0 in both
  plugins: the vector of provider names of the first plugin starts empty, and the
  \<open>provider_count\<close> of the second is a zero-initialised global.
\<close>

theorem provider_count_before_init:
  "GetProviderCount_cv initial_cv = 0 \<and> GetProviderCount_yolox initial_yolox = 0"
  by (simp add: GetProviderCount_cv_def GetProviderCount_yolox_def initial_cv_def
      initial_yolox_def to_int_def)

text \<open>
  The first plugin answers every index outside the list with the null pointer and every
  index inside with the name stored there.
\<close>

lemma GetProviderName_cv_range:
  assumes "int_ok index"
  shows "GetProviderName_cv s index =
     (if 0 \<le> index \<and> index < int (length (provider_names s))
      then Some (provider_names s ! nat index) else None)"
proof -
  have "0 \<le> index \<Longrightarrow> to_size_t index = index"
    using assms by (simp add: to_size_t_def int_ok_def)
  then show ?thesis by (auto simp: GetProviderName_cv_def)
qed

text \<open>
  Claim C4 says that GetProviderName returns an invalid sentinel for every index outside
  \<open>[0, count)\<close> and never reads next to the list. The second plugin has no such check:
  with two providers registered, the indices 2 and -1 are read outside the array.
\<close>

theorem GetProviderName_yolox_unchecked:
  "GetProviderCount_yolox started_yolox = 2 \<and>
   GetProviderName_yolox started_yolox 2 = Inl OutOfBounds \<and>
   GetProviderName_yolox started_yolox (- 1) = Inl OutOfBounds"
  by (simp add: GetProviderCount_yolox_def GetProviderName_yolox_def started_yolox_simps)

subsection \<open>Unknown providers\<close>

lemma first_action_unknown:
  "string_find sel ''CPU'' = None \<Longrightarrow> string_find sel ''Dml'' = None \<Longrightarrow>
   first_action sel (execution_provider_actions E) = None"
  by (simp add: execution_provider_actions_def Let_def)

text \<open>
  The first plugin returns its message for an unknown provider before it creates a
  session: the session pointer and the live sessions are those of before the call, and
  the three calls it made create the environment and the options.
\<close>

lemma LoadModel_cv_rejects_unknown:
  assumes "string_find sel ''CPU'' = None" "string_find sel ''Dml'' = None" "ort s"
  shows "\<exists>s'. LoadModel_cv E s path sel dims =
                 Inr (Literal ''Unknown execution provider specified.'', s') \<and>
              session s' = session s \<and>
              live_sessions (world s') = live_sessions (world s) \<and>
              calls (world s') = calls (world s) @
                [CreateEnv (next_handle (world s)),
                 DisableTelemetryEvents (next_handle (world s)),
                 CreateSessionOptions (Suc (next_handle (world s)))]"
  using LoadModel_cv_unknown [OF first_action_unknown [OF assms(1,2)] assms(3)]
  by (simp add: live_sessions_def)

text \<open>
  Claim C2 says that a selector which contains neither \<open>CPU\<close> nor \<open>Dml\<close> makes Load fail
  before any session is constructed. The second plugin sets \<open>return_val = 1\<close> for such a
  selector, as it does for \<open>CPU\<close>, and goes on: after
  \<^verbatim>\<open>LoadModel("model.onnx", "Cuda", {2, 1})\<close> the session 3 exists and is stored.
\<close>

theorem LoadModel_yolox_unknown_provider_creates_session:
  "string_find ''Cuda'' ''CPU'' = None \<and> string_find ''Cuda'' ''Dml'' = None \<and>
   (case LoadModel_yolox demo_platform started_yolox ''model.onnx'' ''Cuda'' (2, 1) of
      Inl f \<Rightarrow> False
    | Inr (r, s') \<Rightarrow>
        r = 1 \<and> y_session s' = 3 \<and> live_sessions (y_world s') = [3] \<and>
        calls (y_world s') =
          [CreateEnv 1, DisableTelemetryEvents 1, CreateSessionOptions 2,
           CreateSession 1 ''model.onnx'' 2 3, ReleaseSessionOptions 2,
           SessionGetInputName 3, SessionGetOutputName 3])"
  by (simp add: LoadModel_yolox_spec started_yolox_simps wf_initial_world)
    (simp add: demo_platform_simps int_ok_def malloc_input_def to_size_t_def sizeof_pointer_def
      sizeof_float_def bindE_def add_provider_yolox_def Let_def world_after_load_def
      initial_world_def live_sessions_def)

subsection \<open>The runs of PerformInference\<close>

text \<open>
  The runtime calls of a PerformInference whose run leaves no output tensor, and of one
  whose run produces one: in a well-formed world with a live session the memory info
  and the tensors come and go. The second plugin leaves the shape-info object of the
  output tensor behind.
\<close>

lemma PerformInference_cv_null:
  assumes wf: "wf_world (world s)" and o: "ort s"
    and se: "resource_at (world s) (session s) = Some (RSession e cfg path)"
    and pre: "preprocess_pixels byte_div_255 (n_pixels s) image_data 0 (input_data s) = Inr buf"
    and none: "model_output E path buf = None"
  shows "PerformInference_cv E s image_data output_array len =
     Inr (s\<lparr>input_data := buf,
            world := \<lparr>next_handle = Suc (Suc (next_handle (world s))),
                      live = live (world s),
                      calls = calls (world s) @
                        [CreateCpuMemoryInfo (next_handle (world s)),
                         CreateTensorWithDataAsOrtValue (next_handle (world s))
                           (Suc (next_handle (world s))),
                         ReleaseMemoryInfo (next_handle (world s)),
                         Run (session s) (Suc (next_handle (world s))) 0,
                         ReleaseValue (Suc (next_handle (world s)))]\<rparr>\<rparr>,
          output_array)"
proof -
  from se have m: "map_of (live (world s)) (session s) = Some (RSession e cfg path)"
    by (simp add: resource_at_def)
  from wf_lookup [OF wf m] have fresh: "0 < session s" "session s < next_handle (world s)"
    by auto
  from wf have pos: "0 < next_handle (world s)" by (simp add: wf_world_def)
  show ?thesis
    using pre none m fresh pos o filter_fresh [OF wf, of "next_handle (world s)"]
      filter_fresh [OF wf, of "Suc (next_handle (world s))"]
    by (simp add: PerformInference_cv_def ort_defs Let_def)
qed

lemma PerformInference_cv_output:
  assumes wf: "wf_world (world s)" and o: "ort s"
    and se: "resource_at (world s) (session s) = Some (RSession e cfg path)"
    and pre: "preprocess_pixels byte_div_255 (n_pixels s) image_data 0 (input_data s) = Inr buf"
    and some: "model_output E path buf = Some out_data"
    and len: "0 \<le> len" "nat len \<le> length out_data" "nat len \<le> length output_array"
  shows "PerformInference_cv E s image_data output_array len =
     Inr (s\<lparr>input_data := buf,
            world := \<lparr>next_handle = Suc (Suc (Suc (next_handle (world s)))),
                      live = live (world s),
                      calls = calls (world s) @
                        [CreateCpuMemoryInfo (next_handle (world s)),
                         CreateTensorWithDataAsOrtValue (next_handle (world s))
                           (Suc (next_handle (world s))),
                         ReleaseMemoryInfo (next_handle (world s)),
                         Run (session s) (Suc (next_handle (world s)))
                           (Suc (Suc (next_handle (world s)))),
                         GetTensorMutableData (Suc (Suc (next_handle (world s)))),
                         ReleaseValue (Suc (next_handle (world s))),
                         ReleaseValue (Suc (Suc (next_handle (world s))))]\<rparr>\<rparr>,
          take (nat len) out_data @ drop (nat len) output_array)"
proof -
  from se have m: "map_of (live (world s)) (session s) = Some (RSession e cfg path)"
    by (simp add: resource_at_def)
  from wf_lookup [OF wf m] have fresh: "0 < session s" "session s < next_handle (world s)"
    by auto
  from wf have pos: "0 < next_handle (world s)" by (simp add: wf_world_def)
  show ?thesis
    using pre some len m fresh pos o filter_fresh [OF wf, of "next_handle (world s)"]
      filter_fresh [OF wf, of "Suc (next_handle (world s))"]
      filter_fresh [OF wf, of "Suc (Suc (next_handle (world s)))"]
    by (simp add: PerformInference_cv_def ort_defs Let_def memcpy_floats_def)
qed

lemma PerformInference_yolox_null:
  assumes wf: "wf_world (y_world s)" and o: "y_ort s"
    and se: "resource_at (y_world s) (y_session s) = Some (RSession e cfg path)"
    and pre: "preprocess_yolox E s image_data = Inr s1"
    and inp: "input_floats_yolox s1 = Inr buf"
    and none: "model_output E path buf = None"
  shows "PerformInference_yolox E s image_data output_array len =
     Inr (s1\<lparr>y_world := \<lparr>next_handle = Suc (Suc (next_handle (y_world s))),
                      live = live (y_world s),
                      calls = calls (y_world s) @
                        [CreateCpuMemoryInfo (next_handle (y_world s)),
                         CreateTensorWithDataAsOrtValue (next_handle (y_world s))
                           (Suc (next_handle (y_world s))),
                         ReleaseMemoryInfo (next_handle (y_world s)),
                         Run (y_session s) (Suc (next_handle (y_world s))) 0,
                         ReleaseValue (Suc (next_handle (y_world s))),
                         ReleaseValue 0]\<rparr>\<rparr>,
          output_array)"
proof -
  from preprocess_yolox_world [OF pre] have same: "y_world s1 = y_world s" "y_ort s1 = y_ort s"
    "y_session s1 = y_session s" by simp_all
  from se have m: "map_of (live (y_world s)) (y_session s) = Some (RSession e cfg path)"
    by (simp add: resource_at_def)
  from wf_lookup [OF wf m] have fresh: "0 < y_session s" "y_session s < next_handle (y_world s)"
    by auto
  from wf have pos: "0 < next_handle (y_world s)" by (simp add: wf_world_def)
  show ?thesis
    using pre inp none m fresh pos o same filter_fresh [OF wf, of "next_handle (y_world s)"]
      filter_fresh [OF wf, of "Suc (next_handle (y_world s))"]
    by (simp add: PerformInference_yolox_def ort_defs Let_def)
qed

lemma PerformInference_yolox_output:
  assumes wf: "wf_world (y_world s)" and o: "y_ort s"
    and se: "resource_at (y_world s) (y_session s) = Some (RSession e cfg path)"
    and pre: "preprocess_yolox E s image_data = Inr s1"
    and inp: "input_floats_yolox s1 = Inr buf"
    and some: "model_output E path buf = Some out_data"
    and rank: "model_output_rank E path \<le> 3"
    and len: "0 \<le> len" "nat len \<le> length out_data" "nat len \<le> length output_array"
  shows "PerformInference_yolox E s image_data output_array len =
     Inr (s1\<lparr>y_world := \<lparr>next_handle = Suc (Suc (Suc (Suc (next_handle (y_world s))))),
                      live = (Suc (Suc (Suc (next_handle (y_world s)))), RTensorInfo) #
                             live (y_world s),
                      calls = calls (y_world s) @
                        [CreateCpuMemoryInfo (next_handle (y_world s)),
                         CreateTensorWithDataAsOrtValue (next_handle (y_world s))
                           (Suc (next_handle (y_world s))),
                         ReleaseMemoryInfo (next_handle (y_world s)),
                         Run (y_session s) (Suc (next_handle (y_world s)))
                           (Suc (Suc (next_handle (y_world s)))),
                         GetTensorTypeAndShape (Suc (Suc (next_handle (y_world s))))
                           (Suc (Suc (Suc (next_handle (y_world s))))),
                         GetDimensionsCount (Suc (Suc (Suc (next_handle (y_world s))))),
                         GetDimensions (Suc (Suc (Suc (next_handle (y_world s))))),
                         GetTensorMutableData (Suc (Suc (next_handle (y_world s)))),
                         ReleaseValue (Suc (next_handle (y_world s))),
                         ReleaseValue (Suc (Suc (next_handle (y_world s))))]\<rparr>\<rparr>,
          take (nat len) out_data @ drop (nat len) output_array)"
proof -
  from preprocess_yolox_world [OF pre] have same: "y_world s1 = y_world s" "y_ort s1 = y_ort s"
    "y_session s1 = y_session s" by simp_all
  from se have m: "map_of (live (y_world s)) (y_session s) = Some (RSession e cfg path)"
    by (simp add: resource_at_def)
  from wf_lookup [OF wf m] have fresh: "0 < y_session s" "y_session s < next_handle (y_world s)"
    by auto
  from wf have pos: "0 < next_handle (y_world s)" by (simp add: wf_world_def)
  from rank have r: "\<not> 3 < model_output_rank E path" by simp
  show ?thesis
    using pre inp some r len m fresh pos o same
      filter_fresh [OF wf, of "next_handle (y_world s)"]
      filter_fresh [OF wf, of "Suc (next_handle (y_world s))"]
      filter_fresh [OF wf, of "Suc (Suc (next_handle (y_world s)))"]
    by (simp add: PerformInference_yolox_def ort_defs Let_def memcpy_floats_def)
qed

text \<open>
  A call of PerformInference returns: in a loaded state, when the loops have run to
  their end, \<open>length\<close> is not negative and not beyond the caller's array, and an output
  of the graph has at least \<open>length\<close> elements (and, in the second plugin, at most
  three dimensions).
\<close>

lemma session_config_resource:
  "session_config w h \<noteq> None \<Longrightarrow> \<exists>e cfg path. resource_at w h = Some (RSession e cfg path)"
  by (auto simp: session_config_def split: option.splits resource.splits)

lemma PerformInference_cv_returns:
  assumes l: "loaded_cv s w h"
    and pre: "preprocess_pixels byte_div_255 (n_pixels s) image_data 0 (input_data s) = Inr buf"
    and len: "0 \<le> len" "nat len \<le> length output_array"
    and out: "\<forall>path out_data. model_output E path buf = Some out_data
                \<longrightarrow> nat len \<le> length out_data"
  shows "\<exists>s' out. PerformInference_cv E s image_data output_array len = Inr (s', out) \<and>
           input_data s' = buf"
proof -
  from l have wf: "wf_world (world s)" and o: "ort s"
    and cfg: "session_config (world s) (session s) \<noteq> None"
    by (simp_all add: loaded_cv_def)
  from session_config_resource [OF cfg] obtain e cfg path where
    se: "resource_at (world s) (session s) = Some (RSession e cfg path)"
    by blast
  show ?thesis
  proof (cases "model_output E path buf")
    case None
    from PerformInference_cv_null [OF wf o se pre None, of output_array len]
    show ?thesis by simp
  next
    case (Some out_data)
    from PerformInference_cv_output [OF wf o se pre Some len(1) out [rule_format, OF Some] len(2)]
    show ?thesis by simp
  qed
qed

lemma PerformInference_yolox_returns:
  assumes l: "loaded_yolox s w h"
    and pre: "preprocess_yolox E s image_data = Inr s1"
    and inp: "input_floats_yolox s1 = Inr buf"
    and len: "0 \<le> len" "nat len \<le> length output_array"
    and out: "\<forall>path out_data. model_output E path buf = Some out_data
                \<longrightarrow> nat len \<le> length out_data"
    and rank: "\<forall>path. model_output_rank E path \<le> 3"
  shows "\<exists>s' out. PerformInference_yolox E s image_data output_array len = Inr (s', out) \<and>
           input_floats_yolox s' = Inr buf"
proof -
  from l have wf: "wf_world (y_world s)" and o: "y_ort s"
    and cfg: "session_config (y_world s) (y_session s) \<noteq> None"
    by (simp_all add: loaded_yolox_def)
  from session_config_resource [OF cfg] obtain e cfg path where
    se: "resource_at (y_world s) (y_session s) = Some (RSession e cfg path)"
    by blast
  show ?thesis
  proof (cases "model_output E path buf")
    case None
    from PerformInference_yolox_null [OF wf o se pre inp None, of output_array len]
    show ?thesis using inp by (simp add: input_floats_yolox_world)
  next
    case (Some out_data)
    from PerformInference_yolox_output [OF wf o se pre inp Some rank [rule_format] len(1)
        out [rule_format, OF Some] len(2)]
    show ?thesis using inp by (simp add: input_floats_yolox_world)
  qed
qed

subsection \<open>The layout transform\<close>

text \<open>
  Claim C1. Every call of PerformInference in a loaded state performs the transform.
  Let the state be loaded with input width \<open>w\<close> and height \<open>h\<close>, the image have at least
  \<open>w * h * 3\<close> bytes, \<open>length\<close> be not negative and not beyond the caller's array, and
  every output the graph gives for an input of \<open>w * h * 3\<close> floats have at least
  \<open>length\<close> elements. Then the call returns, and in the state it returns the buffer has
  \<open>w * h * 3\<close> floats of which, for every pixel \<open>p\<close> below \<open>w * h\<close> and every channel \<open>c\<close>
  below 3, the element \<open>c * (w * h) + p\<close> is the value of the byte \<open>p * 3 + c\<close> of the
  image divided by 255. Every index of the buffer is of the form \<open>c * (w * h) + p\<close>, so
  every element is overwritten. The quotient is the real one: the rounding of the
  division to a \<^verbatim>\<open>float\<close> is not part of the model. The first conjunct is the first
  plugin; the second is the second plugin, whose buffer is the floats the input tensor
  reads through \<open>input_data\<close>, and whose output tensor has at most the three dimensions
  its array has room for.
\<close>

theorem layout_transform:
  assumes "w * h * 3 \<le> int (length image_data)"
    and "0 \<le> len" and "nat len \<le> length output_array"
    and "\<forall>path x out_data. int (length x) = w * h * 3 \<and> model_output E path x = Some out_data
           \<longrightarrow> nat len \<le> length out_data"
  shows "(loaded_cv s w h \<longrightarrow>
           (\<exists>s' out. PerformInference_cv E s image_data output_array len = Inr (s', out) \<and>
              int (length (input_data s')) = w * h * 3 \<and>
              (\<forall>p c. 0 \<le> p \<and> p < w * h \<and> 0 \<le> c \<and> c < 3 \<longrightarrow>
                 input_data s' ! nat (c * (w * h) + p)
                   = real (unat (image_data ! nat (p * 3 + c))) / 255) \<and>
              (\<forall>i<length (input_data s'). \<exists>p c. 0 \<le> p \<and> p < w * h \<and> 0 \<le> c \<and> c < 3 \<and>
                 i = nat (c * (w * h) + p)))) \<and>
         (loaded_yolox t w h \<and> (\<forall>path. model_output_rank E path \<le> 3) \<longrightarrow>
           (\<exists>t' out buf. PerformInference_yolox E t image_data output_array len = Inr (t', out) \<and>
              input_floats_yolox t' = Inr buf \<and>
              int (length buf) = w * h * 3 \<and>
              (\<forall>p c. 0 \<le> p \<and> p < w * h \<and> 0 \<le> c \<and> c < 3 \<longrightarrow>
                 buf ! nat (c * (w * h) + p)
                   = real (unat (image_data ! nat (p * 3 + c))) / 255) \<and>
              (\<forall>i<length buf. \<exists>p c. 0 \<le> p \<and> p < w * h \<and> 0 \<le> c \<and> c < 3 \<and>
                 i = nat (c * (w * h) + p))))"
proof (intro conjI impI)
  assume l: "loaded_cv s w h"
  from layout_cv [OF l assms(1)] obtain buf where buf:
    "preprocess_pixels byte_div_255 (n_pixels s) image_data 0 (input_data s) = Inr buf"
    "int (length buf) = w * h * 3"
    "\<forall>p c. 0 \<le> p \<and> p < w * h \<and> 0 \<le> c \<and> c < 3 \<longrightarrow>
       buf ! nat (c * (w * h) + p) = byte_div_255 (image_data ! nat (p * 3 + c))"
    "\<forall>i<length buf. \<exists>p c. 0 \<le> p \<and> p < w * h \<and> 0 \<le> c \<and> c < 3 \<and> i = nat (c * (w * h) + p)"
    by blast
  have out: "\<forall>path out_data. model_output E path buf = Some out_data
               \<longrightarrow> nat len \<le> length out_data"
    using assms(4) buf(2) by blast
  from PerformInference_cv_returns [OF l buf(1) assms(2,3) out] obtain s' out where
    r: "PerformInference_cv E s image_data output_array len = Inr (s', out)"
      "input_data s' = buf"
    by blast
  show "\<exists>s' out. PerformInference_cv E s image_data output_array len = Inr (s', out) \<and>
              int (length (input_data s')) = w * h * 3 \<and>
              (\<forall>p c. 0 \<le> p \<and> p < w * h \<and> 0 \<le> c \<and> c < 3 \<longrightarrow>
                 input_data s' ! nat (c * (w * h) + p)
                   = real (unat (image_data ! nat (p * 3 + c))) / 255) \<and>
              (\<forall>i<length (input_data s'). \<exists>p c. 0 \<le> p \<and> p < w * h \<and> 0 \<le> c \<and> c < 3 \<and>
                 i = nat (c * (w * h) + p))"
    using r buf(2,3,4) unfolding byte_div_255_def by blast
next
  assume "loaded_yolox t w h \<and> (\<forall>path. model_output_rank E path \<le> 3)"
  then have l: "loaded_yolox t w h" and rank: "\<forall>path. model_output_rank E path \<le> 3"
    by simp_all
  from layout_yolox [OF l assms(1), of E] obtain t1 buf where buf:
    "preprocess_yolox E t image_data = Inr t1"
    "input_floats_yolox t1 = Inr buf"
    "int (length buf) = w * h * 3"
    "\<forall>p c. 0 \<le> p \<and> p < w * h \<and> 0 \<le> c \<and> c < 3 \<longrightarrow>
       buf ! nat (c * (w * h) + p) = byte_div_255 (image_data ! nat (p * 3 + c))"
    "\<forall>i<length buf. \<exists>p c. 0 \<le> p \<and> p < w * h \<and> 0 \<le> c \<and> c < 3 \<and> i = nat (c * (w * h) + p)"
    by blast
  have out: "\<forall>path out_data. model_output E path buf = Some out_data
               \<longrightarrow> nat len \<le> length out_data"
    using assms(4) buf(3) by blast
  from PerformInference_yolox_returns [OF l buf(1,2) assms(2,3) out rank] obtain t' out where
    r: "PerformInference_yolox E t image_data output_array len = Inr (t', out)"
      "input_floats_yolox t' = Inr buf"
    by blast
  show "\<exists>t' out buf. PerformInference_yolox E t image_data output_array len = Inr (t', out) \<and>
              input_floats_yolox t' = Inr buf \<and>
              int (length buf) = w * h * 3 \<and>
              (\<forall>p c. 0 \<le> p \<and> p < w * h \<and> 0 \<le> c \<and> c < 3 \<longrightarrow>
                 buf ! nat (c * (w * h) + p)
                   = real (unat (image_data ! nat (p * 3 + c))) / 255) \<and>
              (\<forall>i<length buf. \<exists>p c. 0 \<le> p \<and> p < w * h \<and> 0 \<le> c \<and> c < 3 \<and>
                 i = nat (c * (w * h) + p))"
    using r buf(3,4,5) unfolding byte_div_255_def by blast
qed

theorem layout_transform_witness:
  "2 * 1 * 3 \<le> int (length demo_image) \<and> (0::int) \<le> 6 \<and>
   nat 6 \<le> length (replicate 6 (0::real)) \<and>
   loaded_cv demo_cv 2 1 \<and> loaded_yolox demo_yolox 2 1 \<and>
   (\<forall>path. model_output_rank demo_platform path \<le> 3) \<and>
   (\<exists>s' out. PerformInference_cv demo_platform demo_cv demo_image (replicate 6 0) 6
                = Inr (s', out) \<and>
      length (input_data s') = 6 \<and> input_data s' ! 1 = 3 / 5 \<and> input_data s' ! 5 = 1) \<and>
   (\<exists>t' out buf. PerformInference_yolox demo_platform demo_yolox demo_image (replicate 6 0) 6
                = Inr (t', out) \<and>
      input_floats_yolox t' = Inr buf \<and> length buf = 6 \<and> buf ! 1 = 3 / 5 \<and> buf ! 5 = 1)"
proof -
  have len: "2 * 1 * 3 \<le> int (length demo_image)"
    by (simp add: demo_image_def)
  have l0: "(0::int) \<le> 6" by simp
  have l1: "nat 6 \<le> length (replicate 6 (0::real))" by simp
  have graph: "\<forall>path x out_data. int (length x) = 2 * 1 * 3 \<and>
      model_output demo_platform path x = Some out_data \<longrightarrow> nat 6 \<le> length out_data"
    by (auto simp: demo_platform_def)
  have rank: "\<forall>path. model_output_rank demo_platform path \<le> 3"
    by (simp add: demo_platform_def)
  note T = layout_transform [OF len l0 l1 graph, of demo_cv demo_yolox]
  from T demo_cv_loaded obtain s' out where cv:
    "PerformInference_cv demo_platform demo_cv demo_image (replicate 6 0) 6 = Inr (s', out)"
    "int (length (input_data s')) = 2 * 1 * 3"
    "\<forall>p c. 0 \<le> p \<and> p < 2 * 1 \<and> 0 \<le> c \<and> c < 3 \<longrightarrow>
       input_data s' ! nat (c * (2 * 1) + p) = real (unat (demo_image ! nat (p * 3 + c))) / 255"
    by blast
  from cv(3) [rule_format, of 1 0] have b1: "input_data s' ! 1 = 3 / 5"
    by (simp add: demo_image_def)
  from cv(3) [rule_format, of 1 2] have b5: "input_data s' ! 5 = 1"
    by (simp add: demo_image_def)
  from cv(2) have bl: "length (input_data s') = 6" by simp
  from T demo_yolox_loaded rank obtain t' yout ybuf where yolox:
    "PerformInference_yolox demo_platform demo_yolox demo_image (replicate 6 0) 6
       = Inr (t', yout)"
    "input_floats_yolox t' = Inr ybuf"
    "int (length ybuf) = 2 * 1 * 3"
    "\<forall>p c. 0 \<le> p \<and> p < 2 * 1 \<and> 0 \<le> c \<and> c < 3 \<longrightarrow>
       ybuf ! nat (c * (2 * 1) + p) = real (unat (demo_image ! nat (p * 3 + c))) / 255"
    by blast
  from yolox(4) [rule_format, of 1 0] have y1: "ybuf ! 1 = 3 / 5"
    by (simp add: demo_image_def)
  from yolox(4) [rule_format, of 1 2] have y5: "ybuf ! 5 = 1"
    by (simp add: demo_image_def)
  from yolox(3) have yl: "length ybuf = 6" by simp
  show ?thesis
    using len l1 rank demo_cv_loaded demo_yolox_loaded cv(1) bl b1 b5 yolox(1,2) yl y1 y5
    by simp
qed

subsection \<open>A run without an output tensor\<close>

text \<open>
  Claim C8. Whenever the run of PerformInference leaves the output tensor null (the
  graph of the session produces no output for the preprocessed buffer), the call returns
  normally and the caller's output array is the one that was passed in: nothing is
  written to it and nothing is signalled, for every \<open>length\<close> argument. The first
  conjunct is the first plugin, the second the second plugin.
\<close>

theorem null_output_is_silent_noop:
  "(loaded_cv s w h \<and> resource_at (world s) (session s) = Some (RSession e cfg path) \<and>
    preprocess_pixels byte_div_255 (n_pixels s) image_data 0 (input_data s) = Inr buf \<and>
    model_output E path buf = None \<longrightarrow>
      (\<exists>s'. PerformInference_cv E s image_data output_array len = Inr (s', output_array))) \<and>
   (loaded_yolox t w h \<and> resource_at (y_world t) (y_session t) = Some (RSession e cfg path) \<and>
    preprocess_yolox E t image_data = Inr t1 \<and> input_floats_yolox t1 = Inr buf \<and>
    model_output E path buf = None \<longrightarrow>
      (\<exists>t'. PerformInference_yolox E t image_data output_array len = Inr (t', output_array)))"
proof (intro conjI impI; elim conjE)
  assume "loaded_cv s w h"
  then have "wf_world (world s)" "ort s" by (simp_all add: loaded_cv_def)
  moreover assume "resource_at (world s) (session s) = Some (RSession e cfg path)"
    "preprocess_pixels byte_div_255 (n_pixels s) image_data 0 (input_data s) = Inr buf"
    "model_output E path buf = None"
  ultimately show "\<exists>s'. PerformInference_cv E s image_data output_array len
                          = Inr (s', output_array)"
    using PerformInference_cv_null by blast
next
  assume "loaded_yolox t w h"
  then have "wf_world (y_world t)" "y_ort t" by (simp_all add: loaded_yolox_def)
  moreover assume "resource_at (y_world t) (y_session t) = Some (RSession e cfg path)"
    "preprocess_yolox E t image_data = Inr t1" "input_floats_yolox t1 = Inr buf"
    "model_output E path buf = None"
  ultimately show "\<exists>t'. PerformInference_yolox E t image_data output_array len
                          = Inr (t', output_array)"
    using PerformInference_yolox_null by blast
qed


theorem null_output_is_silent_noop_witness:
  "loaded_cv demo_cv 2 1 \<and>
   resource_at (world demo_cv) (session demo_cv) = Some (RSession 1 [] ''model.onnx'') \<and>
   (\<exists>buf. preprocess_pixels byte_div_255 (n_pixels demo_cv) demo_image 0
             (input_data demo_cv) = Inr buf \<and>
          model_output silent_platform ''model.onnx'' buf = None) \<and>
   (\<exists>s'. PerformInference_cv silent_platform demo_cv demo_image [7, 7] 2 = Inr (s', [7, 7])) \<and>
   loaded_yolox demo_yolox 2 1 \<and>
   resource_at (y_world demo_yolox) (y_session demo_yolox) = Some (RSession 1 [] ''model.onnx'') \<and>
   (\<exists>t1 buf. preprocess_yolox silent_platform demo_yolox demo_image = Inr t1 \<and>
          input_floats_yolox t1 = Inr buf \<and>
          model_output silent_platform ''model.onnx'' buf = None) \<and>
   (\<exists>t'. PerformInference_yolox silent_platform demo_yolox demo_image [7, 7] 2
            = Inr (t', [7, 7]))"
proof -
  have len: "2 * 1 * 3 \<le> int (length demo_image)"
    by (simp add: demo_image_def)
  have silent: "model_output silent_platform ''model.onnx'' x = None" for x
    by (simp add: silent_platform_def)
  have se: "resource_at (world demo_cv) (session demo_cv) = Some (RSession 1 [] ''model.onnx'')"
    by (simp add: demo_cv_def resource_at_def world_after_load_def initial_world_def)
  have yse: "resource_at (y_world demo_yolox) (y_session demo_yolox)
               = Some (RSession 1 [] ''model.onnx'')"
    by (simp add: demo_yolox_def resource_at_def world_after_load_def initial_world_def)
  from layout_cv [OF demo_cv_loaded len] obtain buf where
    buf: "preprocess_pixels byte_div_255 (n_pixels demo_cv) demo_image 0
            (input_data demo_cv) = Inr buf"
    by blast
  from layout_yolox [OF demo_yolox_loaded len, of silent_platform] obtain t1 ybuf where
    ybuf: "preprocess_yolox silent_platform demo_yolox demo_image = Inr t1"
      "input_floats_yolox t1 = Inr ybuf"
    by blast
  note T = null_output_is_silent_noop [of demo_cv 2 1 1 "[]" "''model.onnx''" demo_image buf
      silent_platform "[7, 7]" 2 demo_yolox t1]
  have cv: "\<exists>s'. PerformInference_cv silent_platform demo_cv demo_image [7, 7] 2
                   = Inr (s', [7, 7])"
    using T demo_cv_loaded se buf silent by blast
  note T' = null_output_is_silent_noop [of demo_cv 2 1 1 "[]" "''model.onnx''" demo_image ybuf
      silent_platform "[7, 7]" 2 demo_yolox t1]
  have yolox: "\<exists>t'. PerformInference_yolox silent_platform demo_yolox demo_image [7, 7] 2
                   = Inr (t', [7, 7])"
    using T' demo_yolox_loaded yse ybuf silent by blast
  show ?thesis
    using demo_cv_loaded se buf silent cv demo_yolox_loaded yse ybuf yolox by blast
qed

subsection \<open>The size and the contents of the buffer after LoadModel\<close>

lemma LoadModel_cv_post:
  "post (LoadModel_cv E s path sel (w, h))
     (\<lambda>(m, s'). m = Literal ''Model loaded successfully.'' \<longrightarrow>
        vector_resize E (input_data s) (w * h * 3) = Inr (input_data s'))"
  unfolding LoadModel_cv_def
  by (intro post_rules post_Inr) (auto simp: n_channels_def)

lemma to_size_t_negative:
  assumes "int_ok x" "x < 0"
  shows "to_size_t (to_size_t x * 8) < to_size_t x"
proof -
  define M :: int where "M = 2 ^ 64"
  have M: "0 < M" "- M \<le> 8 * x" "- M \<le> x"
    using assms by (simp_all add: M_def int_ok_def)
  have "(x + M) mod M = x + M"
    using M assms(2) by (intro mod_pos_pos_trivial) simp_all
  then have a: "x mod M = x + M" by simp
  have "(8 * x + M) mod M = 8 * x + M"
    using M assms(2) by (intro mod_pos_pos_trivial) simp_all
  then have b: "(8 * x) mod M = 8 * x + M" by simp
  have "((x + M) * 8) mod M = (8 * x + M * 8) mod M"
    by (simp add: algebra_simps)
  also have "\<dots> = (8 * x) mod M"
    by (rule mod_mult_self2)
  finally have "((x + M) * 8) mod M = 8 * x + M" using b by simp
  with a have "(x mod M * 8) mod M < x mod M" using assms(2) by simp
  then show ?thesis by (simp add: to_size_t_def M_def)
qed

lemma malloc_input_zeroed:
  assumes "malloc_input E fresh sz = Inr (p, cells)" "p \<noteq> 0" "int_ok sz"
  shows "0 \<le> sz \<and> tensor_floats cells sz = Inr (replicate (nat (sz div 4)) 0)"
proof -
  have nonneg: "0 \<le> sz"
  proof (rule ccontr)
    assume "\<not> 0 \<le> sz"
    then have "to_size_t (to_size_t sz * 8) < to_size_t sz"
      using assms(3) by (intro to_size_t_negative) simp_all
    with assms(1,2) show False
      by (simp add: malloc_input_def Let_def sizeof_pointer_def split: if_splits)
  qed
  then have id: "to_size_t sz = sz" using assms(3) by (intro to_size_t_id)
  let ?a = "nat (sz div 4)"
  from assms(1,2) id have cells: "cells = replicate ?a (Some 0) @
      replicate (nat (to_size_t (sz * sizeof_pointer) div sizeof_float) - ?a) None"
    by (simp add: malloc_input_def Let_def sizeof_float_def split: if_splits)
  have "tensor_floats cells sz = Inr (map the (replicate ?a (Some 0)))"
    unfolding tensor_floats_def Let_def id sizeof_float_def cells by simp
  then show ?thesis using nonneg by simp
qed

lemma LoadModel_yolox_post:
  "post (LoadModel_yolox E s path sel (w, h))
     (\<lambda>(r, s'). y_input_size s' = w * h * 3 * 4 \<and> int_ok (w * h * 3 * 4) \<and>
        (\<exists>cells. malloc_input E (y_next_block s) (w * h * 3 * 4) = Inr (y_input_data s', cells) \<and>
           (y_input_data s' \<noteq> 0 \<longrightarrow> y_heap s' = (y_input_data s', cells) # y_heap s)))"
  unfolding LoadModel_yolox_def
  by (intro post_rules post_Inr)
    (auto simp: n_channels_def sizeof_float_def)

lemma LoadModel_yolox_zeroed:
  assumes "LoadModel_yolox E s path sel (w, h) = Inr (r, s')" "y_input_data s' \<noteq> 0"
  shows "y_input_size s' = w * h * 3 * 4 \<and>
         input_floats_yolox s' = Inr (replicate (nat (w * h * 3)) 0)"
proof -
  from LoadModel_yolox_post [of E s path sel w h] assms(1)
  obtain cells where c: "y_input_size s' = w * h * 3 * 4" "int_ok (w * h * 3 * 4)"
    "malloc_input E (y_next_block s) (w * h * 3 * 4) = Inr (y_input_data s', cells)"
    "y_heap s' = (y_input_data s', cells) # y_heap s"
    using assms(2) by (auto simp: post_def)
  from malloc_input_zeroed [OF c(3) assms(2) c(2)]
  have "tensor_floats cells (w * h * 3 * 4) = Inr (replicate (nat (w * h * 3 * 4 div 4)) 0)"
    by simp
  then show ?thesis using c(1,4) by (simp add: input_floats_yolox_def mult.commute)
qed

lemma inferred_cv_simps:
  "ort inferred_cv" "wf_world (world inferred_cv)"
  "input_data inferred_cv = [0, 3 / 5, 1 / 5, 4 / 5, 2 / 5, 1]"
  by (simp_all add: inferred_cv_def demo_cv_def wf_world_def world_after_load_def
      initial_world_def)

lemma first_action_CPUExecutionProvider:
  "first_action ''CPUExecutionProvider'' (execution_provider_actions demo_platform) = Some []"
  by (simp add: execution_provider_actions_def demo_platform_simps)

text \<open>
  Claim C3 says that after every successful Load the buffer holds exactly
  \<open>w * h * 3\<close> floats, and that a Load with other dimensions resizes it and discards the
  old contents. The contents are not discarded by the first plugin:
  \<^verbatim>\<open>std::vector::resize\<close> keeps the elements that are there. After the inference on
  \<open>demo_image\<close>, a LoadModel for 3 by 1 pixels leaves the six old values in front of
  three zeros.
\<close>

theorem reload_keeps_old_contents:
  "input_data inferred_cv = [0, 3 / 5, 1 / 5, 4 / 5, 2 / 5, 1] \<and>
   (case LoadModel_cv demo_platform inferred_cv ''model.onnx'' ''CPUExecutionProvider'' (3, 1) of
      Inl f \<Rightarrow> False
    | Inr (m, s') \<Rightarrow>
        m = Literal ''Model loaded successfully.'' \<and>
        input_data s' = [0, 3 / 5, 1 / 5, 4 / 5, 2 / 5, 1, 0, 0, 0])"
  by (simp add: LoadModel_cv_known [OF first_action_CPUExecutionProvider] inferred_cv_simps
      demo_platform_simps int_ok_def vector_resize_def Let_def numeral_eq_Suc)

text \<open>
  Claim C3, amended. After every LoadModel of the first plugin that reports success for
  the dimensions \<open>(w, h)\<close>, from any state and so also after an earlier load, the buffer
  has exactly \<open>w * h * 3\<close> elements: in front the elements it held before the call, as
  far as they fit, and zeros behind them. After every LoadModel of the second plugin
  that returns with \<open>input_data\<close> not null, \<open>input_size\<close> is the size of \<open>w * h * 3\<close>
  floats and the tensor bytes of the new block are \<open>w * h * 3\<close> zeros.
\<close>

theorem buffer_sizing:
  "(LoadModel_cv E s path sel (w, h) = Inr (Literal ''Model loaded successfully.'', s') \<longrightarrow>
      int (length (input_data s')) = w * h * 3 \<and>
      input_data s' = take (nat (w * h * 3)) (input_data s) @
                      replicate (nat (w * h * 3) - length (input_data s)) 0) \<and>
   (LoadModel_yolox E t path sel (w, h) = Inr (r, t') \<and> y_input_data t' \<noteq> 0 \<longrightarrow>
      y_input_size t' = w * h * 3 * 4 \<and>
      input_floats_yolox t' = Inr (replicate (nat (w * h * 3)) 0))"
proof (intro conjI impI)
  assume "LoadModel_cv E s path sel (w, h) = Inr (Literal ''Model loaded successfully.'', s')"
  with LoadModel_cv_post [of E s path sel w h]
  have "vector_resize E (input_data s) (w * h * 3) = Inr (input_data s')"
    by (simp add: post_def)
  from vector_resize_Inr [OF this]
  show "int (length (input_data s')) = w * h * 3"
    and "input_data s' = take (nat (w * h * 3)) (input_data s) @
           replicate (nat (w * h * 3) - length (input_data s)) 0"
    by blast+
next
  assume a: "LoadModel_yolox E t path sel (w, h) = Inr (r, t') \<and> y_input_data t' \<noteq> 0"
  from LoadModel_yolox_zeroed [of E t path sel w h r t'] a
  show "y_input_size t' = w * h * 3 * 4"
    and "input_floats_yolox t' = Inr (replicate (nat (w * h * 3)) 0)"
    by blast+
qed

theorem buffer_sizing_witness:
  "(\<exists>s'. LoadModel_cv demo_platform inferred_cv ''model.onnx'' ''CPUExecutionProvider'' (3, 1)
            = Inr (Literal ''Model loaded successfully.'', s') \<and>
          int (length (input_data s')) = 3 * 1 * 3 \<and>
          input_data s' = take (nat (3 * 1 * 3)) (input_data inferred_cv) @
                          replicate (nat (3 * 1 * 3) - length (input_data inferred_cv)) 0) \<and>
   LoadModel_yolox demo_platform started_yolox ''model.onnx'' ''CPUExecutionProvider'' (2, 1)
     = Inr (1, demo_yolox) \<and> y_input_data demo_yolox \<noteq> 0 \<and>
   y_input_size demo_yolox = 2 * 1 * 3 * 4 \<and>
   input_floats_yolox demo_yolox = Inr (replicate (nat (2 * 1 * 3)) 0)"
proof -
  obtain s' where s':
    "LoadModel_cv demo_platform inferred_cv ''model.onnx'' ''CPUExecutionProvider'' (3, 1)
       = Inr (Literal ''Model loaded successfully.'', s')"
    by (simp add: LoadModel_cv_known [OF first_action_CPUExecutionProvider] inferred_cv_simps
        demo_platform_simps int_ok_def vector_resize_def Let_def)
  have p: "y_input_data demo_yolox \<noteq> 0"
    by (simp add: demo_yolox_def)
  note T = buffer_sizing [of demo_platform inferred_cv "''model.onnx''"
      "''CPUExecutionProvider''" 3 1 s']
  note T' = buffer_sizing [of demo_platform _ "''model.onnx''" "''CPUExecutionProvider''" 2 1 _
      started_yolox 1 demo_yolox]
  show ?thesis
    using T s' T' demo_yolox_reached p by blast
qed

subsection \<open>The configuration of the backend\<close>

text \<open>What a LoadModel that returns has done to the session, the environment and the world.\<close>

lemma LoadModel_cv_session:
  assumes wf: "wf_world (world s)"
    and act: "first_action sel (execution_provider_actions E) = Some action"
    and load: "LoadModel_cv E s path sel dims = Inr (m, s')"
  shows "model_loads E path \<and> env s' = next_handle (world s) \<and>
         session s' = Suc (Suc (next_handle (world s))) \<and>
         world s' = world_after_load (world s) action path \<and>
         m = Literal ''Model loaded successfully.''"
proof -
  obtain w h where dims: "dims = (w, h)" by (cases dims)
  have o: "ort s" using load by (rule LoadModel_cv_Inr_ort)
  note known = load [unfolded dims LoadModel_cv_known [OF act o wf]]
  have loads: "model_loads E path"
    using known by (cases "model_loads E path") simp_all
  have ok: "\<not> (\<not> int_ok (w * h) \<or> \<not> int_ok (w * h * 3))"
    using known loads by (cases "\<not> int_ok (w * h) \<or> \<not> int_ok (w * h * 3)") simp_all
  show ?thesis
  proof (cases "vector_resize E (input_data s) (w * h * 3)")
    case (Inl ex)
    with known loads ok show ?thesis by (simp add: Let_def)
  next
    case (Inr v)
    with known loads ok show ?thesis by (simp add: Let_def) auto
  qed
qed

lemma LoadModel_yolox_Inr_ort: "LoadModel_yolox E s path sel dims = Inr r \<Longrightarrow> y_ort s"
  by (simp add: LoadModel_yolox_def through_api_Inr_iff)

lemma LoadModel_yolox_session:
  assumes wf: "wf_world (y_world s)"
    and load: "LoadModel_yolox E s path sel dims = Inr (r, s')"
  shows "model_loads E path \<and> y_env s' = next_handle (y_world s) \<and>
         y_session s' = Suc (Suc (next_handle (y_world s))) \<and>
         y_world s' = world_after_load (y_world s) (snd (add_provider_yolox sel)) path \<and>
         r = fst (add_provider_yolox sel)"
proof -
  obtain w h where dims: "dims = (w, h)" by (cases dims)
  have o: "y_ort s" using load by (rule LoadModel_yolox_Inr_ort)
  note known = load [unfolded dims LoadModel_yolox_spec [OF o wf]]
  have loads: "model_loads E path"
    using known by (cases "model_loads E path") simp_all
  have ok: "\<not> (\<not> int_ok (w * h) \<or> \<not> int_ok (w * h * 3) \<or> \<not> int_ok (w * h * 3 * 4))"
    using known loads
    by (cases "\<not> int_ok (w * h) \<or> \<not> int_ok (w * h * 3) \<or> \<not> int_ok (w * h * 3 * 4)")
      simp_all
  show ?thesis
  proof (cases "malloc_input E (y_next_block s) (w * h * 3 * 4)")
    case (Inl f)
    with known loads ok show ?thesis by (simp add: Let_def bindE_def)
  next
    case (Inr pc)
    obtain p cells where "pc = (p, cells)" by (cases pc)
    with Inr known loads ok show ?thesis by (simp add: Let_def bindE_def) auto
  qed
qed

lemma first_action_cpu_only:
  "string_find sel ''CPU'' \<noteq> None \<Longrightarrow> string_find sel ''Dml'' = None \<Longrightarrow>
   first_action sel (execution_provider_actions E) = Some []"
  by (simp add: execution_provider_actions_def Let_def)

lemma first_action_dml_only:
  "string_find sel ''Dml'' \<noteq> None \<Longrightarrow> string_find sel ''CPU'' = None \<Longrightarrow>
   first_action sel (execution_provider_actions E) =
     Some [DisableMemPattern, SetSessionExecutionMode ORT_SEQUENTIAL,
           AppendExecutionProvider_DML 0]"
  by (simp add: execution_provider_actions_def Let_def)

lemma started_wf: "wf_world (world started_cv)" "wf_world (y_world started_yolox)"
  by (simp_all add: started_cv_simps started_yolox_simps wf_initial_world)

lemma demo_selectors:
  "string_find ''CPUExecutionProvider'' ''CPU'' \<noteq> None"
  "string_find ''CPUExecutionProvider'' ''Dml'' = None"
  "string_find ''DmlExecutionProvider'' ''Dml'' \<noteq> None"
  "string_find ''DmlExecutionProvider'' ''CPU'' = None"
  "string_find ''DmlCPU'' ''Dml'' \<noteq> None"
  "string_find ''DmlCPU'' ''CPU'' \<noteq> None"
  by simp_all

lemma demo_cv_dml:
  "\<exists>s'. LoadModel_cv demo_platform started_cv ''model.onnx'' ''DmlExecutionProvider'' (2, 1)
           = Inr (Literal ''Model loaded successfully.'', s')"
  by (simp add: LoadModel_cv_known [OF first_action_dml_only] demo_selectors started_cv_simps
      wf_initial_world demo_platform_simps int_ok_def vector_resize_def Let_def)

lemma demo_yolox_dml:
  "\<exists>t'. LoadModel_yolox demo_platform started_yolox ''model.onnx'' ''DmlExecutionProvider''
           (2, 1) = Inr (0, t')"
  by (simp add: LoadModel_yolox_spec started_yolox_simps wf_initial_world)
    (simp add: demo_platform_simps int_ok_def malloc_input_def to_size_t_def sizeof_pointer_def
      sizeof_float_def bindE_def add_provider_yolox_def Let_def)

text \<open>
  Claim C7 says that every Load whose selector matches \<open>CPU\<close> applies no accelerated
  flag and every Load whose selector matches \<open>Dml\<close> applies exactly the three. A selector
  matches a key that it contains, and the first key found decides; so for a selector
  that contains both keys one half of the claim fails. For \<open>DmlCPU\<close> the second plugin,
  which tests \<open>CPU\<close> first, applies no flag although \<open>Dml\<close> matches, and so does the first
  plugin when its map iterates \<open>CPU\<close> first; when the map iterates \<open>Dml\<close> first, the
  first plugin applies the three flags although \<open>CPU\<close> matches.
\<close>

theorem selector_with_both_keys:
  "string_find ''DmlCPU'' ''Dml'' \<noteq> None \<and> string_find ''DmlCPU'' ''CPU'' \<noteq> None \<and>
   (case LoadModel_yolox demo_platform started_yolox ''model.onnx'' ''DmlCPU'' (2, 1) of
      Inl f \<Rightarrow> False
    | Inr (r, t') \<Rightarrow> session_config (y_world t') (y_session t') = Some []) \<and>
   (case LoadModel_cv demo_platform started_cv ''model.onnx'' ''DmlCPU'' (2, 1) of
      Inl f \<Rightarrow> False
    | Inr (m, s') \<Rightarrow> session_config (world s') (session s') = Some []) \<and>
   (case LoadModel_cv (demo_platform\<lparr>dml_key_first := True\<rparr>) started_cv ''model.onnx''
           ''DmlCPU'' (2, 1) of
      Inl f \<Rightarrow> False
    | Inr (m, s') \<Rightarrow>
        session_config (world s') (session s') =
          Some [DisableMemPattern, SetSessionExecutionMode ORT_SEQUENTIAL,
                AppendExecutionProvider_DML 0])"
proof -
  have a: "first_action ''DmlCPU'' (execution_provider_actions demo_platform) = Some []"
    by (simp add: execution_provider_actions_def demo_platform_simps)
  have b: "first_action ''DmlCPU''
             (execution_provider_actions (demo_platform\<lparr>dml_key_first := True\<rparr>)) =
           Some [DisableMemPattern, SetSessionExecutionMode ORT_SEQUENTIAL,
                 AppendExecutionProvider_DML 0]"
    by (simp add: execution_provider_actions_def)
  have y: "case LoadModel_yolox demo_platform started_yolox ''model.onnx'' ''DmlCPU'' (2, 1) of
      Inl f \<Rightarrow> False
    | Inr (r, t') \<Rightarrow> session_config (y_world t') (y_session t') = Some []"
    by (simp add: LoadModel_yolox_spec started_yolox_simps wf_initial_world)
      (simp add: demo_platform_simps int_ok_def malloc_input_def to_size_t_def
        sizeof_pointer_def sizeof_float_def bindE_def add_provider_yolox_def Let_def
        session_config_after_load)
  have c: "case LoadModel_cv demo_platform started_cv ''model.onnx'' ''DmlCPU'' (2, 1) of
      Inl f \<Rightarrow> False
    | Inr (m, s') \<Rightarrow> session_config (world s') (session s') = Some []"
    by (simp add: LoadModel_cv_known [OF a] started_cv_simps wf_initial_world
        demo_platform_simps int_ok_def vector_resize_def Let_def session_config_after_load)
  have d: "case LoadModel_cv (demo_platform\<lparr>dml_key_first := True\<rparr>) started_cv ''model.onnx''
           ''DmlCPU'' (2, 1) of
      Inl f \<Rightarrow> False
    | Inr (m, s') \<Rightarrow>
        session_config (world s') (session s') =
          Some [DisableMemPattern, SetSessionExecutionMode ORT_SEQUENTIAL,
                AppendExecutionProvider_DML 0]"
    by (simp add: LoadModel_cv_known [OF b] started_cv_simps wf_initial_world)
      (simp add: demo_platform_def int_ok_def vector_resize_def Let_def
        session_config_after_load)
  show ?thesis using demo_selectors(5,6) y c d by blast
qed

text \<open>
  Claim C7, amended. In both plugins, every Load that returns and whose selector
  contains \<open>CPU\<close> and not \<open>Dml\<close> creates its session from options on which no setting
  was made, and every Load that returns and whose selector contains \<open>Dml\<close> and not
  \<open>CPU\<close> creates it from options with exactly DisableMemPattern, the sequential
  execution mode and the DirectML device 0, in this order. In the second plugin a
  selector that contains \<open>CPU\<close> gets no setting also when it contains \<open>Dml\<close>.
\<close>

theorem backend_configuration:
  "(wf_world (world s) \<and> LoadModel_cv E s path sel dims = Inr (m, s') \<longrightarrow>
      (string_find sel ''CPU'' \<noteq> None \<and> string_find sel ''Dml'' = None \<longrightarrow>
         session_config (world s') (session s') = Some []) \<and>
      (string_find sel ''Dml'' \<noteq> None \<and> string_find sel ''CPU'' = None \<longrightarrow>
         session_config (world s') (session s') =
           Some [DisableMemPattern, SetSessionExecutionMode ORT_SEQUENTIAL,
                 AppendExecutionProvider_DML 0])) \<and>
   (wf_world (y_world t) \<and> LoadModel_yolox E t path sel dims = Inr (r, t') \<longrightarrow>
      (string_find sel ''CPU'' \<noteq> None \<longrightarrow>
         session_config (y_world t') (y_session t') = Some []) \<and>
      (string_find sel ''Dml'' \<noteq> None \<and> string_find sel ''CPU'' = None \<longrightarrow>
         session_config (y_world t') (y_session t') =
           Some [DisableMemPattern, SetSessionExecutionMode ORT_SEQUENTIAL,
                 AppendExecutionProvider_DML 0]))"
proof (intro conjI impI; elim conjE)
  assume wf: "wf_world (world s)" and load: "LoadModel_cv E s path sel dims = Inr (m, s')"
    and sel: "string_find sel ''CPU'' \<noteq> None" "string_find sel ''Dml'' = None"
  from LoadModel_cv_session [OF wf first_action_cpu_only [OF sel] load]
  show "session_config (world s') (session s') = Some []"
    by (simp add: session_config_after_load)
next
  assume wf: "wf_world (world s)" and load: "LoadModel_cv E s path sel dims = Inr (m, s')"
    and sel: "string_find sel ''Dml'' \<noteq> None" "string_find sel ''CPU'' = None"
  from LoadModel_cv_session [OF wf first_action_dml_only [OF sel] load]
  show "session_config (world s') (session s') =
          Some [DisableMemPattern, SetSessionExecutionMode ORT_SEQUENTIAL,
                AppendExecutionProvider_DML 0]"
    by (simp add: session_config_after_load)
next
  assume wf: "wf_world (y_world t)" and load: "LoadModel_yolox E t path sel dims = Inr (r, t')"
    and sel: "string_find sel ''CPU'' \<noteq> None"
  from LoadModel_yolox_session [OF wf load] sel
  show "session_config (y_world t') (y_session t') = Some []"
    by (simp add: session_config_after_load add_provider_yolox_def)
next
  assume wf: "wf_world (y_world t)" and load: "LoadModel_yolox E t path sel dims = Inr (r, t')"
    and sel: "string_find sel ''Dml'' \<noteq> None" "string_find sel ''CPU'' = None"
  from LoadModel_yolox_session [OF wf load] sel
  show "session_config (y_world t') (y_session t') =
          Some [DisableMemPattern, SetSessionExecutionMode ORT_SEQUENTIAL,
                AppendExecutionProvider_DML 0]"
    by (simp add: session_config_after_load add_provider_yolox_def)
qed

theorem backend_configuration_witness:
  "wf_world (world started_cv) \<and> wf_world (y_world started_yolox) \<and>
   string_find ''CPUExecutionProvider'' ''CPU'' \<noteq> None \<and>
   string_find ''CPUExecutionProvider'' ''Dml'' = None \<and>
   string_find ''DmlExecutionProvider'' ''Dml'' \<noteq> None \<and>
   string_find ''DmlExecutionProvider'' ''CPU'' = None \<and>
   LoadModel_cv demo_platform started_cv ''model.onnx'' ''CPUExecutionProvider'' (2, 1)
     = Inr (Literal ''Model loaded successfully.'', demo_cv) \<and>
   session_config (world demo_cv) (session demo_cv) = Some [] \<and>
   (\<exists>s'. LoadModel_cv demo_platform started_cv ''model.onnx'' ''DmlExecutionProvider'' (2, 1)
            = Inr (Literal ''Model loaded successfully.'', s') \<and>
          session_config (world s') (session s') =
            Some [DisableMemPattern, SetSessionExecutionMode ORT_SEQUENTIAL,
                  AppendExecutionProvider_DML 0]) \<and>
   LoadModel_yolox demo_platform started_yolox ''model.onnx'' ''CPUExecutionProvider'' (2, 1)
     = Inr (1, demo_yolox) \<and>
   session_config (y_world demo_yolox) (y_session demo_yolox) = Some [] \<and>
   (\<exists>t'. LoadModel_yolox demo_platform started_yolox ''model.onnx'' ''DmlExecutionProvider''
            (2, 1) = Inr (0, t') \<and>
          session_config (y_world t') (y_session t') =
            Some [DisableMemPattern, SetSessionExecutionMode ORT_SEQUENTIAL,
                  AppendExecutionProvider_DML 0])"
proof -
  from demo_cv_dml obtain s' where s':
    "LoadModel_cv demo_platform started_cv ''model.onnx'' ''DmlExecutionProvider'' (2, 1)
       = Inr (Literal ''Model loaded successfully.'', s')"
    by blast
  from demo_yolox_dml obtain t' where t':
    "LoadModel_yolox demo_platform started_yolox ''model.onnx'' ''DmlExecutionProvider'' (2, 1)
       = Inr (0, t')"
    by blast
  note cpu = backend_configuration [of started_cv demo_platform "''model.onnx''"
      "''CPUExecutionProvider''" "(2, 1)" "Literal ''Model loaded successfully.''" demo_cv
      started_yolox 1 demo_yolox]
  note dml = backend_configuration [of started_cv demo_platform "''model.onnx''"
      "''DmlExecutionProvider''" "(2, 1)" "Literal ''Model loaded successfully.''" s'
      started_yolox 0 t']
  have 1: "session_config (world demo_cv) (session demo_cv) = Some []"
    using cpu started_wf demo_cv_reached demo_selectors by blast
  have 2: "session_config (y_world demo_yolox) (y_session demo_yolox) = Some []"
    using cpu started_wf demo_yolox_reached demo_selectors by blast
  have 3: "session_config (world s') (session s') =
            Some [DisableMemPattern, SetSessionExecutionMode ORT_SEQUENTIAL,
                  AppendExecutionProvider_DML 0]"
    using dml started_wf s' demo_selectors by blast
  have 4: "session_config (y_world t') (y_session t') =
            Some [DisableMemPattern, SetSessionExecutionMode ORT_SEQUENTIAL,
                  AppendExecutionProvider_DML 0]"
    using dml started_wf t' demo_selectors by blast
  show ?thesis
    using started_wf demo_selectors(1-4) demo_cv_reached demo_yolox_reached 1 2 3 4 s' t'
    by blast
qed

subsection \<open>What LoadModel returns\<close>

lemma first_action_None_iff:
  "first_action sel (execution_provider_actions E) = None \<longleftrightarrow>
   string_find sel ''CPU'' = None \<and> string_find sel ''Dml'' = None"
  by (auto simp: execution_provider_actions_def Let_def)

lemma live_sessions_options:
  "live_sessions (w\<lparr>next_handle := n, live := (a, RSessionOptions cfg) # (b, REnv) # live w,
                     calls := c\<rparr>) = live_sessions w"
  by (simp add: live_sessions_def)

lemma live_after_load:
  "live_envs (world_after_load w action path) = next_handle w # live_envs w"
  "live_sessions (world_after_load w action path) = Suc (Suc (next_handle w)) # live_sessions w"
  by (simp_all add: live_envs_def live_sessions_def world_after_load_def Let_def)

lemma demo_cv_simps:
  "ort demo_cv" "wf_world (world demo_cv)" "session demo_cv = 3" "env demo_cv = 1"
  "live_sessions (world demo_cv) = [3]" "live_envs (world demo_cv) = [1]"
  "session_config (world demo_cv) 3 = Some []" "next_handle (world demo_cv) = 4"
  by (simp_all add: demo_cv_def wf_initial_world wf_world_after_load)
    (simp_all add: world_after_load_def initial_world_def live_sessions_def live_envs_def
      session_config_def resource_at_def)

text \<open>
  Claim C5 says that a Load that completes returns a status of success, and that a Load
  that fails returns the reason and leaves the Session unset or invalid. The last part
  fails in the first plugin: in the loaded state \<open>demo_cv\<close> LoadModel returns its message
  for the unknown provider \<open>Cuda\<close>, while the session 3 of the earlier call stays stored
  and alive.
\<close>

theorem failed_load_leaves_session_set:
  "\<exists>s'. LoadModel_cv demo_platform demo_cv ''model.onnx'' ''Cuda'' (2, 1)
           = Inr (Literal ''Unknown execution provider specified.'', s') \<and>
         session s' = 3 \<and>
         session_config (world s') (session s') = Some [] \<and>
         live_sessions (world s') = [3]"
proof -
  have none: "first_action ''Cuda'' (execution_provider_actions demo_platform) = None"
    by (simp add: first_action_None_iff)
  show ?thesis
    using demo_cv_simps(3,5,7,8)
    by (simp add: LoadModel_cv_unknown [OF none demo_cv_simps(1)] live_sessions_def
        session_config_def resource_at_def)
qed

text \<open>
  Claim C5, amended. Let the API be initialised. When the selector contains neither
  key, LoadModel of the first plugin returns its message for an unknown provider, and
  the session pointer and the live sessions are those of before the call. When the
  selector contains a key, the model file loads, the products of the dimensions fit an
  \<^verbatim>\<open>int\<close> and \<open>resize\<close> gives the buffer \<open>v\<close>, LoadModel returns its message of success;
  the new session is created, alive and stored, the two names are those of the model
  and the buffer is \<open>v\<close>.
\<close>

theorem load_status:
  "ort s \<and> wf_world (world s) \<longrightarrow>
     (string_find sel ''CPU'' = None \<and> string_find sel ''Dml'' = None \<longrightarrow>
        (\<exists>s'. LoadModel_cv E s path sel (w, h)
                 = Inr (Literal ''Unknown execution provider specified.'', s') \<and>
           session s' = session s \<and>
           live_sessions (world s') = live_sessions (world s))) \<and>
     ((string_find sel ''CPU'' \<noteq> None \<or> string_find sel ''Dml'' \<noteq> None) \<and>
      model_loads E path \<and> int_ok (w * h) \<and> int_ok (w * h * 3) \<and>
      vector_resize E (input_data s) (w * h * 3) = Inr v \<longrightarrow>
        (\<exists>s'. LoadModel_cv E s path sel (w, h)
                 = Inr (Literal ''Model loaded successfully.'', s') \<and>
           session s' = Suc (Suc (next_handle (world s))) \<and>
           live_sessions (world s') = session s' # live_sessions (world s) \<and>
           input_name s' = model_input_name E path \<and>
           output_name s' = model_output_name E path \<and>
           input_data s' = v))"
proof (intro impI conjI; elim conjE)
  assume o: "ort s" and wf: "wf_world (world s)"
  {
    assume "string_find sel ''CPU'' = None" "string_find sel ''Dml'' = None"
    then have none: "first_action sel (execution_provider_actions E) = None"
      by (simp add: first_action_None_iff)
    show "\<exists>s'. LoadModel_cv E s path sel (w, h)
                 = Inr (Literal ''Unknown execution provider specified.'', s') \<and>
           session s' = session s \<and>
           live_sessions (world s') = live_sessions (world s)"
      by (simp add: LoadModel_cv_unknown [OF none o] live_sessions_def)
  }
  {
    assume "string_find sel ''CPU'' \<noteq> None \<or> string_find sel ''Dml'' \<noteq> None"
      and loads: "model_loads E path" and ok: "int_ok (w * h)" "int_ok (w * h * 3)"
      and v: "vector_resize E (input_data s) (w * h * 3) = Inr v"
    then obtain action where act: "first_action sel (execution_provider_actions E) = Some action"
      using first_action_None_iff [of sel E]
      by (cases "first_action sel (execution_provider_actions E)") auto
    show "\<exists>s'. LoadModel_cv E s path sel (w, h)
                 = Inr (Literal ''Model loaded successfully.'', s') \<and>
           session s' = Suc (Suc (next_handle (world s))) \<and>
           live_sessions (world s') = session s' # live_sessions (world s) \<and>
           input_name s' = model_input_name E path \<and>
           output_name s' = model_output_name E path \<and>
           input_data s' = v"
      using loads ok v
      by (simp add: LoadModel_cv_known [OF act o wf] Let_def live_after_load)
  }
qed

theorem load_status_witness:
  "ort started_cv \<and> wf_world (world started_cv) \<and>
   string_find ''Cuda'' ''CPU'' = None \<and> string_find ''Cuda'' ''Dml'' = None \<and>
   (\<exists>s'. LoadModel_cv demo_platform started_cv ''model.onnx'' ''Cuda'' (2, 1)
            = Inr (Literal ''Unknown execution provider specified.'', s') \<and>
          session s' = session started_cv \<and>
          live_sessions (world s') = live_sessions (world started_cv)) \<and>
   string_find ''CPUExecutionProvider'' ''CPU'' \<noteq> None \<and>
   model_loads demo_platform ''model.onnx'' \<and> int_ok (2 * 1) \<and> int_ok (2 * 1 * 3) \<and>
   vector_resize demo_platform (input_data started_cv) (2 * 1 * 3) = Inr (replicate 6 0) \<and>
   (\<exists>s'. LoadModel_cv demo_platform started_cv ''model.onnx'' ''CPUExecutionProvider'' (2, 1)
            = Inr (Literal ''Model loaded successfully.'', s') \<and>
          session s' = Suc (Suc (next_handle (world started_cv))) \<and>
          live_sessions (world s') = session s' # live_sessions (world started_cv) \<and>
          input_name s' = ''input'' \<and> output_name s' = ''output'' \<and>
          input_data s' = replicate 6 0)"
proof -
  have sel: "string_find ''Cuda'' ''CPU'' = None" "string_find ''Cuda'' ''Dml'' = None"
    by simp_all
  have ok: "int_ok (2 * 1)" "int_ok (2 * 1 * 3)"
    by (simp_all add: int_ok_def)
  have r: "vector_resize demo_platform (input_data started_cv) (2 * 1 * 3) = Inr (replicate 6 0)"
    by (simp add: vector_resize_def started_cv_simps demo_platform_simps)
  note unknown = load_status [of started_cv "''Cuda''" demo_platform "''model.onnx''" 2 1]
  note good = load_status [of started_cv "''CPUExecutionProvider''" demo_platform
      "''model.onnx''" 2 1 "replicate 6 0"]
  have 1: "\<exists>s'. LoadModel_cv demo_platform started_cv ''model.onnx'' ''Cuda'' (2, 1)
            = Inr (Literal ''Unknown execution provider specified.'', s') \<and>
          session s' = session started_cv \<and>
          live_sessions (world s') = live_sessions (world started_cv)"
    using unknown started_cv_simps(1) started_wf(1) sel by blast
  have 2: "\<exists>s'. LoadModel_cv demo_platform started_cv ''model.onnx'' ''CPUExecutionProvider''
                   (2, 1)
            = Inr (Literal ''Model loaded successfully.'', s') \<and>
          session s' = Suc (Suc (next_handle (world started_cv))) \<and>
          live_sessions (world s') = session s' # live_sessions (world started_cv) \<and>
          input_name s' = ''input'' \<and> output_name s' = ''output'' \<and>
          input_data s' = replicate 6 0"
    using good started_cv_simps(1) started_wf(1) demo_selectors(1) demo_platform_simps(1) ok r
    by (simp add: demo_platform_simps)
  show ?thesis
    using started_cv_simps(1) started_wf(1) sel 1 demo_selectors(1) demo_platform_simps(1) ok r 2
    by blast
qed

subsection \<open>Releasing and reloading\<close>

lemma map_fst_filter_drop:
  "map fst (filter P (filter (\<lambda>(k, r). k \<noteq> h) xs)) =
   filter (\<lambda>k. k \<noteq> h) (map fst (filter P xs))"
  by (induction xs) auto

lemma live_drop_resource:
  "live_envs (drop_resource h w) = filter (\<lambda>k. k \<noteq> h) (live_envs w)"
  "live_sessions (drop_resource h w) = filter (\<lambda>k. k \<noteq> h) (live_sessions w)"
proof -
  have l: "live (drop_resource h w) = filter (\<lambda>(k, r). k \<noteq> h) (live w)"
    by (simp add: drop_resource_def)
  show "live_envs (drop_resource h w) = filter (\<lambda>k. k \<noteq> h) (live_envs w)"
    unfolding live_envs_def l by (rule map_fst_filter_drop)
  show "live_sessions (drop_resource h w) = filter (\<lambda>k. k \<noteq> h) (live_sessions w)"
    unfolding live_sessions_def l by (rule map_fst_filter_drop)
qed

lemma live_log_call:
  "live_envs (log_call c w) = live_envs w" "live_sessions (log_call c w) = live_sessions w"
  by (simp_all add: live_envs_def live_sessions_def log_call_def)

lemma wf_map_of:
  "wf_world w \<Longrightarrow> (h, r) \<in> set (live w) \<Longrightarrow> map_of (live w) h = Some r"
  by (simp add: wf_world_def)

lemma live_sessions_member:
  "h \<in> set (live_sessions w) \<Longrightarrow> \<exists>r. (h, r) \<in> set (live w) \<and> is_session r"
  by (auto simp: live_sessions_def)

lemma live_envs_member: "h \<in> set (live_envs w) \<longleftrightarrow> (h, REnv) \<in> set (live w)"
  by (auto simp: live_envs_def image_iff)

lemma wf_drop_resource: "wf_world w \<Longrightarrow> wf_world (drop_resource h w)"
  by (auto simp: wf_world_def drop_resource_def list_all_iff distinct_map_filter)

lemma wf_log_call: "wf_world (log_call c w) = wf_world w"
  by (simp add: wf_world_def log_call_def)

text \<open>Releasing a live session, and releasing a live environment.\<close>

lemma release_live_session:
  assumes wf: "wf_world w" and h: "h \<in> set (live_sessions w)"
  shows "ort_ReleaseSession h w = Inr (log_call (ReleaseSession h) (drop_resource h w)) \<and>
         h \<noteq> 0 \<and> h \<notin> set (live_envs w)"
proof -
  from h obtain r where r: "(h, r) \<in> set (live w)" "is_session r"
    using live_sessions_member by blast
  from wf_map_of [OF wf r(1)] have m: "map_of (live w) h = Some r" .
  from wf_lookup [OF wf m] have h0: "h \<noteq> 0" by simp
  have "h \<notin> set (live_envs w)"
  proof
    assume "h \<in> set (live_envs w)"
    then have "(h, REnv) \<in> set (live w)" by (simp add: live_envs_member)
    from wf_map_of [OF wf this] m r(2) show False by auto
  qed
  then show ?thesis
    using m h0 r(2) by (simp add: ort_ReleaseSession_def ort_release_def resource_at_def)
qed

lemma release_live_env:
  assumes wf: "wf_world w" and h: "h \<in> set (live_envs w)"
  shows "ort_ReleaseEnv h w = Inr (log_call (ReleaseEnv h) (drop_resource h w)) \<and> h \<noteq> 0"
proof -
  from h have r: "(h, REnv) \<in> set (live w)" by (simp add: live_envs_member)
  from wf_map_of [OF wf r] have m: "map_of (live w) h = Some REnv" .
  from wf_lookup [OF wf m] have h0: "h \<noteq> 0" by simp
  show ?thesis
    using m h0 by (simp add: ort_ReleaseEnv_def ort_release_def resource_at_def)
qed

lemma FreeResources_cv_loaded:
  assumes wf: "wf_world (world s)" and o: "ort s"
    and envs: "live_envs (world s) = [env s]" and sess: "live_sessions (world s) = [session s]"
  shows "\<exists>w. FreeResources_cv s = Inr (s\<lparr>world := w\<rparr>) \<and> wf_world w \<and>
           live_envs w = [] \<and> live_sessions w = [] \<and>
           calls w = calls (world s) @ [ReleaseSession (session s), ReleaseEnv (env s)]"
proof -
  let ?w1 = "log_call (ReleaseSession (session s)) (drop_resource (session s) (world s))"
  let ?w2 = "log_call (ReleaseEnv (env s)) (drop_resource (env s) ?w1)"
  have "session s \<in> set (live_sessions (world s))" using sess by simp
  from release_live_session [OF wf this]
  have 1: "ort_ReleaseSession (session s) (world s) = Inr ?w1" "session s \<noteq> 0"
    "session s \<noteq> env s"
    using envs by auto
  have wf1: "wf_world ?w1" using wf by (simp add: wf_log_call wf_drop_resource)
  have envs1: "live_envs ?w1 = [env s]"
    using envs 1(3) by (simp add: live_log_call live_drop_resource)
  have sess1: "live_sessions ?w1 = []"
    using sess by (simp add: live_log_call live_drop_resource)
  have "env s \<in> set (live_envs ?w1)" using envs1 by simp
  from release_live_env [OF wf1 this]
  have 2: "ort_ReleaseEnv (env s) ?w1 = Inr ?w2" "env s \<noteq> 0"
    by simp_all
  have wf2: "wf_world ?w2" using wf1 by (simp add: wf_log_call wf_drop_resource)
  have e2: "live_envs ?w2 = []"
    using envs1 by (simp add: live_log_call live_drop_resource [of _ ?w1])
  have s2: "live_sessions ?w2 = []"
    using sess1 by (simp add: live_log_call live_drop_resource [of _ ?w1])
  have c: "calls ?w2 = calls (world s) @ [ReleaseSession (session s), ReleaseEnv (env s)]"
    by (simp add: log_call_def drop_resource_def)
  have "FreeResources_cv s = Inr (s\<lparr>world := ?w2\<rparr>)"
    using 1(1,2) 2(1,2) o by (simp add: FreeResources_cv_def bindE_def through_api_def)
  then show ?thesis using wf2 e2 s2 c by blast
qed

lemma FreeResources_cv_unloaded:
  "session s = 0 \<Longrightarrow> env s = 0 \<Longrightarrow> FreeResources_cv s = Inr s"
  by (simp add: FreeResources_cv_def bindE_def)

lemma recognized_action:
  assumes "string_find sel ''CPU'' \<noteq> None \<or> string_find sel ''Dml'' \<noteq> None"
  shows "\<exists>action. first_action sel (execution_provider_actions E) = Some action"
  using assms first_action_None_iff [of sel E]
  by (cases "first_action sel (execution_provider_actions E)") auto

text \<open>A LoadModel that gets through adds an environment and a session to the live ones.\<close>

lemma LoadModel_cv_succeeds:
  assumes o: "ort s" and wf: "wf_world (world s)"
    and sel: "string_find sel ''CPU'' \<noteq> None \<or> string_find sel ''Dml'' \<noteq> None"
    and loads: "model_loads E path" and ok: "int_ok (w * h)" "int_ok (w * h * 3)"
    and v: "vector_resize E (input_data s) (w * h * 3) = Inr v"
  shows "\<exists>s'. LoadModel_cv E s path sel (w, h) = Inr (Literal ''Model loaded successfully.'', s') \<and>
           env s' = next_handle (world s) \<and> session s' = Suc (Suc (next_handle (world s))) \<and>
           live_envs (world s') = env s' # live_envs (world s) \<and>
           live_sessions (world s') = session s' # live_sessions (world s)"
proof -
  from recognized_action [OF sel] obtain action where
    act: "first_action sel (execution_provider_actions E) = Some action" by blast
  show ?thesis
    using loads ok v
    by (simp add: LoadModel_cv_known [OF act o wf] Let_def live_after_load)
qed

lemma malloc_input_returns:
  assumes "0 \<le> n" and "int_ok n"
  shows "\<exists>p cells. malloc_input E fresh n = Inr (p, cells)"
proof -
  from assms have n: "n < 2 ^ 32" by (simp add: int_ok_def)
  have "n * 8 < 2 ^ 32 * 8" using n by simp
  then have lt: "n * 8 < 2 ^ 64" by simp
  have t: "to_size_t n = n" using assms(1) n by (simp add: to_size_t_def)
  have t8: "to_size_t (n * 8) = n * 8" using assms(1) lt by (simp add: to_size_t_def)
  show ?thesis
    using assms(1) by (simp add: malloc_input_def t t8 sizeof_pointer_def Let_def)
qed

lemma LoadModel_yolox_succeeds:
  assumes o: "y_ort s" and wf: "wf_world (y_world s)"
    and loads: "model_loads E path" and ok: "int_ok (w * h)" "int_ok (w * h * 3)"
    and pos: "0 \<le> w * h" and ok4: "int_ok (w * h * 3 * 4)"
  shows "\<exists>r s'. LoadModel_yolox E s path sel (w, h) = Inr (r, s') \<and>
           y_env s' = next_handle (y_world s) \<and>
           y_session s' = Suc (Suc (next_handle (y_world s))) \<and>
           live_envs (y_world s') = y_env s' # live_envs (y_world s) \<and>
           live_sessions (y_world s') = y_session s' # live_sessions (y_world s)"
proof -
  have "0 \<le> w * h * 3 * 4" using pos by simp
  from malloc_input_returns [OF this ok4, of E "y_next_block s"] obtain p cells where
    m: "malloc_input E (y_next_block s) (w * h * 3 * 4) = Inr (p, cells)" by blast
  show ?thesis
    using loads ok ok4 m
    by (simp add: LoadModel_yolox_spec [OF o wf] Let_def bindE_def live_after_load)
qed

text \<open>
  The release functions of the second plugin in a state where exactly the stored session
  and environment are alive.
\<close>

lemma release_both:
  assumes wf: "wf_world w" and envs: "live_envs w = [e]" and sess: "live_sessions w = [se]"
  shows "\<exists>w'. bindE (ort_ReleaseSession se w) (ort_ReleaseEnv e) = Inr w' \<and>
           se \<noteq> 0 \<and> e \<noteq> 0 \<and> wf_world w' \<and> live_envs w' = [] \<and> live_sessions w' = [] \<and>
           calls w' = calls w @ [ReleaseSession se, ReleaseEnv e]"
proof -
  let ?w1 = "log_call (ReleaseSession se) (drop_resource se w)"
  let ?w2 = "log_call (ReleaseEnv e) (drop_resource e ?w1)"
  have "se \<in> set (live_sessions w)" using sess by simp
  from release_live_session [OF wf this]
  have 1: "ort_ReleaseSession se w = Inr ?w1" "se \<noteq> 0" "se \<noteq> e"
    using envs by auto
  have wf1: "wf_world ?w1" using wf by (simp add: wf_log_call wf_drop_resource)
  have envs1: "live_envs ?w1 = [e]"
    using envs 1(3) by (simp add: live_log_call live_drop_resource)
  have sess1: "live_sessions ?w1 = []"
    using sess by (simp add: live_log_call live_drop_resource)
  have "e \<in> set (live_envs ?w1)" using envs1 by simp
  from release_live_env [OF wf1 this]
  have 2: "ort_ReleaseEnv e ?w1 = Inr ?w2" "e \<noteq> 0"
    by simp_all
  have wf2: "wf_world ?w2" using wf1 by (simp add: wf_log_call wf_drop_resource)
  have e2: "live_envs ?w2 = []"
    using envs1 by (simp add: live_log_call live_drop_resource [of _ ?w1])
  have s2: "live_sessions ?w2 = []"
    using sess1 by (simp add: live_log_call live_drop_resource [of _ ?w1])
  have c: "calls ?w2 = calls w @ [ReleaseSession se, ReleaseEnv e]"
    by (simp add: log_call_def drop_resource_def)
  have "bindE (ort_ReleaseSession se w) (ort_ReleaseEnv e) = Inr ?w2"
    using 1(1) 2(1) by (simp add: bindE_def)
  then show ?thesis using 1(2) 2(2) wf2 e2 s2 c by blast
qed

lemma RefreshMemory_yolox_loaded:
  assumes wf: "wf_world (y_world s)" and o: "y_ort s"
    and envs: "live_envs (y_world s) = [y_env s]"
    and sess: "live_sessions (y_world s) = [y_session s]"
    and block: "y_input_data s = 0 \<or> map_of (y_heap s) (y_input_data s) \<noteq> None"
  shows "\<exists>w heap. RefreshMemory_yolox s = Inr (s\<lparr>y_heap := heap, y_world := w\<rparr>) \<and>
           wf_world w \<and> live_envs w = [] \<and> live_sessions w = [] \<and>
           calls w = calls (y_world s) @ [ReleaseSession (y_session s), ReleaseEnv (y_env s)]"
proof -
  from release_both [OF wf envs sess] obtain w where w:
    "bindE (ort_ReleaseSession (y_session s) (y_world s)) (ort_ReleaseEnv (y_env s)) = Inr w"
    "y_session s \<noteq> 0" "y_env s \<noteq> 0" "wf_world w" "live_envs w = []" "live_sessions w = []"
    "calls w = calls (y_world s) @ [ReleaseSession (y_session s), ReleaseEnv (y_env s)]"
    by blast
  from w(1) obtain w1 where w1: "ort_ReleaseSession (y_session s) (y_world s) = Inr w1"
    "ort_ReleaseEnv (y_env s) w1 = Inr w"
    by (auto simp: bindE_Inr_iff)
  obtain heap where heap: "(if y_input_data s \<noteq> 0 then c_free (y_input_data s) (y_heap s)
                            else Inr (y_heap s)) = Inr heap"
    using block by (cases "y_input_data s = 0") (auto simp: c_free_def)
  have "RefreshMemory_yolox s = Inr (s\<lparr>y_heap := heap, y_world := w\<rparr>)"
    unfolding RefreshMemory_yolox_def heap
    using w1 w(2,3) o by (simp add: bindE_def through_api_def)
  then have "\<exists>heap. RefreshMemory_yolox s = Inr (s\<lparr>y_heap := heap, y_world := w\<rparr>)"
    by blast
  then show ?thesis using w(4,5,6,7) by blast
qed

lemma FreeResources_yolox_loaded:
  assumes wf: "wf_world (y_world s)" and o: "y_ort s"
    and envs: "live_envs (y_world s) = [y_env s]"
    and sess: "live_sessions (y_world s) = [y_session s]"
    and block: "map_of (y_heap s) (y_input_data s) \<noteq> None" and p: "y_input_data s \<noteq> 0"
  shows "\<exists>w. FreeResources_yolox s
                = Inr (s\<lparr>y_heap := filter (\<lambda>(k, cells). k \<noteq> y_input_data s) (y_heap s),
                         y_world := w\<rparr>) \<and>
           wf_world w \<and> live_envs w = [] \<and> live_sessions w = [] \<and>
           calls w = calls (y_world s) @ [ReleaseSession (y_session s), ReleaseEnv (y_env s)]"
proof -
  from release_both [OF wf envs sess] obtain w where w:
    "bindE (ort_ReleaseSession (y_session s) (y_world s)) (ort_ReleaseEnv (y_env s)) = Inr w"
    "wf_world w" "live_envs w = []" "live_sessions w = []"
    "calls w = calls (y_world s) @ [ReleaseSession (y_session s), ReleaseEnv (y_env s)]"
    by blast
  from w(1) obtain w1 where w1: "ort_ReleaseSession (y_session s) (y_world s) = Inr w1"
    "ort_ReleaseEnv (y_env s) w1 = Inr w"
    by (auto simp: bindE_Inr_iff)
  have "FreeResources_yolox s
          = Inr (s\<lparr>y_heap := filter (\<lambda>(k, cells). k \<noteq> y_input_data s) (y_heap s),
                   y_world := w\<rparr>)"
    using w1 o block p by (simp add: FreeResources_yolox_def c_free_def bindE_def through_api_def)
  then show ?thesis using w(2,3,4,5) by blast
qed

text \<open>
  The pointers are not reset by the release functions: a second release passes the dead
  session to the runtime, and the freed block to \<^verbatim>\<open>free\<close>.
\<close>

lemma release_dead_session:
  assumes "live_sessions w = []" and "h \<noteq> 0"
  shows "ort_ReleaseSession h w = Inl InvalidHandle"
proof (cases "map_of (live w) h")
  case None
  with assms(2) show ?thesis
    by (simp add: ort_ReleaseSession_def ort_release_def resource_at_def)
next
  case (Some r)
  then have "(h, r) \<in> set (live w)" by (rule map_of_SomeD)
  then have "is_session r \<Longrightarrow> h \<in> set (live_sessions w)"
    by (force simp: live_sessions_def)
  with assms(1) have "\<not> is_session r" by auto
  with Some assms(2) show ?thesis
    by (simp add: ort_ReleaseSession_def ort_release_def resource_at_def)
qed

lemma map_of_filter_eq: "map_of (filter (\<lambda>(k, r). k \<noteq> h) xs) h = None"
  by (induction xs) auto

lemma FreeResources_cv_twice:
  assumes wf: "wf_world (world s)" and o: "ort s"
    and envs: "live_envs (world s) = [env s]" and sess: "live_sessions (world s) = [session s]"
  shows "\<exists>s1. FreeResources_cv s = Inr s1 \<and>
           live_envs (world s1) = [] \<and> live_sessions (world s1) = [] \<and>
           FreeResources_cv s1 = Inl InvalidHandle"
proof -
  from FreeResources_cv_loaded [OF wf o envs sess] obtain w where
    w: "FreeResources_cv s = Inr (s\<lparr>world := w\<rparr>)" "live_envs w = []" "live_sessions w = []"
    by blast
  have "session s \<in> set (live_sessions (world s))" using sess by simp
  from release_live_session [OF wf this] have s0: "session s \<noteq> 0" by simp
  from release_dead_session [OF w(3) s0]
  have "FreeResources_cv (s\<lparr>world := w\<rparr>) = Inl InvalidHandle"
    using s0 o by (simp add: FreeResources_cv_def bindE_def through_api_def)
  with w show ?thesis by (intro exI [of _ "s\<lparr>world := w\<rparr>"]) simp
qed

lemma FreeResources_yolox_twice:
  assumes wf: "wf_world (y_world s)" and o: "y_ort s"
    and envs: "live_envs (y_world s) = [y_env s]"
    and sess: "live_sessions (y_world s) = [y_session s]"
    and block: "map_of (y_heap s) (y_input_data s) \<noteq> None" and p: "y_input_data s \<noteq> 0"
  shows "\<exists>s1. FreeResources_yolox s = Inr s1 \<and>
           live_envs (y_world s1) = [] \<and> live_sessions (y_world s1) = [] \<and>
           FreeResources_yolox s1 = Inl InvalidHandle"
proof -
  let ?heap = "filter (\<lambda>(k, cells). k \<noteq> y_input_data s) (y_heap s)"
  from FreeResources_yolox_loaded [OF wf o envs sess block p] obtain w where
    w: "FreeResources_yolox s = Inr (s\<lparr>y_heap := ?heap, y_world := w\<rparr>)"
      "live_envs w = []" "live_sessions w = []"
    by blast
  have "FreeResources_yolox (s\<lparr>y_heap := ?heap, y_world := w\<rparr>) = Inl InvalidHandle"
    using p by (simp add: FreeResources_yolox_def c_free_def bindE_def map_of_filter_eq)
  with w show ?thesis by (intro exI [of _ "s\<lparr>y_heap := ?heap, y_world := w\<rparr>"]) simp
qed

lemma demo_yolox_simps:
  "y_ort demo_yolox" "wf_world (y_world demo_yolox)" "y_session demo_yolox = 3"
  "y_env demo_yolox = 1" "live_sessions (y_world demo_yolox) = [3]"
  "live_envs (y_world demo_yolox) = [1]" "next_handle (y_world demo_yolox) = 4"
  "y_input_data demo_yolox = 1" "y_next_block demo_yolox = 2"
  by (simp_all add: demo_yolox_def wf_initial_world wf_world_after_load)
    (simp_all add: world_after_load_def initial_world_def live_sessions_def live_envs_def)

lemma demo_yolox_block: "map_of (y_heap demo_yolox) (y_input_data demo_yolox) \<noteq> None"
  by (simp add: demo_yolox_def)

text \<open>
  What holds of the release functions: with null pointers \<^verbatim>\<open>FreeResources\<close> of the first
  plugin and \<^verbatim>\<open>RefreshMemory\<close> of the second do nothing, also before InitOrtAPI; and
  \<^verbatim>\<open>FreeResources\<close> of the second plugin, once the API is initialised, passes null
  pointers to \<^verbatim>\<open>free\<close> and to the release functions, which do nothing.
\<close>

lemma RefreshMemory_yolox_unloaded:
  "y_input_data s = 0 \<Longrightarrow> y_session s = 0 \<Longrightarrow> y_env s = 0 \<Longrightarrow> RefreshMemory_yolox s = Inr s"
  by (simp add: RefreshMemory_yolox_def bindE_def)

lemma FreeResources_yolox_started:
  "FreeResources_yolox started_yolox =
     Inr (started_yolox\<lparr>y_world := \<lparr>next_handle = 1, live = [],
                                    calls = [ReleaseSession 0, ReleaseEnv 0]\<rparr>\<rparr>)"
  by (simp add: FreeResources_yolox_def started_yolox_def InitOrtAPI_yolox_def initial_yolox_def
      initial_world_def c_free_def ort_defs)

text \<open>
  Claim C9 says that Unload with nothing loaded is a safe no-op. \<^verbatim>\<open>FreeResources\<close> of the
  second plugin goes through the API pointer and calls \<^verbatim>\<open>free\<close> without a test: as the
  first call of the plugin, in the state of the loader, it dereferences the null pointer
  \<open>ort\<close>. And in neither plugin does \<^verbatim>\<open>FreeResources\<close> reset the pointers it has released:
  after LoadModel and \<^verbatim>\<open>FreeResources\<close> no session and no environment is alive, and a
  second \<^verbatim>\<open>FreeResources\<close> passes the dead session to the runtime (first plugin) and the
  freed block to \<^verbatim>\<open>free\<close> (second plugin).
\<close>

theorem unload_with_nothing_loaded:
  "FreeResources_yolox (initial_yolox :: real yolox_state) = Inl NullApi \<and>
   (\<exists>s1. FreeResources_cv demo_cv = Inr s1 \<and>
      live_envs (world s1) = [] \<and> live_sessions (world s1) = [] \<and>
      FreeResources_cv s1 = Inl InvalidHandle) \<and>
   (\<exists>t1. FreeResources_yolox demo_yolox = Inr t1 \<and>
      live_envs (y_world t1) = [] \<and> live_sessions (y_world t1) = [] \<and>
      FreeResources_yolox t1 = Inl InvalidHandle)"
proof -
  have a: "FreeResources_yolox (initial_yolox :: real yolox_state) = Inl NullApi"
    by (simp add: FreeResources_yolox_def initial_yolox_def c_free_def bindE_def through_api_def)
  have e: "live_envs (world demo_cv) = [env demo_cv]"
    "live_sessions (world demo_cv) = [session demo_cv]"
    by (simp_all add: demo_cv_simps)
  have ye: "live_envs (y_world demo_yolox) = [y_env demo_yolox]"
    "live_sessions (y_world demo_yolox) = [y_session demo_yolox]"
    "y_input_data demo_yolox \<noteq> 0"
    by (simp_all add: demo_yolox_simps)
  note b = FreeResources_cv_twice [OF demo_cv_simps(2,1) e]
  note c = FreeResources_yolox_twice [OF demo_yolox_simps(2,1) ye(1,2) demo_yolox_block ye(3)]
  from a b c show ?thesis by (intro conjI)
qed

text \<open>
  Claim C6 says that a Load in a loaded state releases the session and the environment
  of the earlier Load. Neither plugin does: after a second LoadModel in the loaded
  states \<open>demo_cv\<close> and \<open>demo_yolox\<close> the environments 1 and 4 and the sessions 3 and 6 are
  alive.
\<close>

theorem second_load_leaks_first:
  "live_envs (world demo_cv) = [1] \<and> live_sessions (world demo_cv) = [3] \<and>
   (\<exists>s'. LoadModel_cv demo_platform demo_cv ''model.onnx'' ''CPUExecutionProvider'' (2, 1)
            = Inr (Literal ''Model loaded successfully.'', s') \<and>
          live_envs (world s') = [4, 1] \<and> live_sessions (world s') = [6, 3]) \<and>
   live_envs (y_world demo_yolox) = [1] \<and> live_sessions (y_world demo_yolox) = [3] \<and>
   (\<exists>r t'. LoadModel_yolox demo_platform demo_yolox ''model.onnx'' ''CPUExecutionProvider''
              (2, 1) = Inr (r, t') \<and>
          live_envs (y_world t') = [4, 1] \<and> live_sessions (y_world t') = [6, 3])"
proof -
  have ok: "int_ok (2 * 1)" "int_ok (2 * 1 * 3)" "(0::int) \<le> 2 * 1" "int_ok (2 * 1 * 3 * 4)"
    by (simp_all add: int_ok_def)
  have v: "vector_resize demo_platform (input_data demo_cv) (2 * 1 * 3) = Inr (replicate 6 0)"
    by (simp add: vector_resize_def demo_cv_def)
  have sel: "string_find ''CPUExecutionProvider'' ''CPU'' \<noteq> None \<or>
             string_find ''CPUExecutionProvider'' ''Dml'' \<noteq> None"
    using demo_selectors(1) by simp
  from LoadModel_cv_succeeds [OF demo_cv_simps(1,2) sel demo_platform_simps(1) ok(1,2) v]
  obtain s' where s':
    "LoadModel_cv demo_platform demo_cv ''model.onnx'' ''CPUExecutionProvider'' (2, 1)
       = Inr (Literal ''Model loaded successfully.'', s')"
    "env s' = next_handle (world demo_cv)"
    "session s' = Suc (Suc (next_handle (world demo_cv)))"
    "live_envs (world s') = env s' # live_envs (world demo_cv)"
    "live_sessions (world s') = session s' # live_sessions (world demo_cv)"
    by blast
  have 1: "live_envs (world s') = [4, 1]" "live_sessions (world s') = [6, 3]"
    unfolding s'(4,5) s'(2,3) by (simp_all add: demo_cv_simps)
  from LoadModel_yolox_succeeds [OF demo_yolox_simps(1,2) demo_platform_simps(1) ok,
      of "''CPUExecutionProvider''"]
  obtain r t' where t':
    "LoadModel_yolox demo_platform demo_yolox ''model.onnx'' ''CPUExecutionProvider'' (2, 1)
       = Inr (r, t')"
    "y_env t' = next_handle (y_world demo_yolox)"
    "y_session t' = Suc (Suc (next_handle (y_world demo_yolox)))"
    "live_envs (y_world t') = y_env t' # live_envs (y_world demo_yolox)"
    "live_sessions (y_world t') = y_session t' # live_sessions (y_world demo_yolox)"
    by blast
  have 2: "live_envs (y_world t') = [4, 1]" "live_sessions (y_world t') = [6, 3]"
    unfolding t'(4,5) t'(2,3) by (simp_all add: demo_yolox_simps)
  have cv: "\<exists>s'. LoadModel_cv demo_platform demo_cv ''model.onnx'' ''CPUExecutionProvider''
                   (2, 1) = Inr (Literal ''Model loaded successfully.'', s') \<and>
          live_envs (world s') = [4, 1] \<and> live_sessions (world s') = [6, 3]"
    using s'(1) 1 by blast
  have yolox: "\<exists>r t'. LoadModel_yolox demo_platform demo_yolox ''model.onnx''
                   ''CPUExecutionProvider'' (2, 1) = Inr (r, t') \<and>
          live_envs (y_world t') = [4, 1] \<and> live_sessions (y_world t') = [6, 3]"
    using t'(1) 2 by blast
  from demo_cv_simps(6,5) cv demo_yolox_simps(6,5) yolox show ?thesis
    by (intro conjI)
qed

text \<open>
  Claim C6, amended. LoadModel releases nothing: let the API be initialised, the model
  file load and the products of the dimensions fit an \<^verbatim>\<open>int\<close>; then LoadModel returns, and
  the live environments and sessions are its new environment and session in front of
  all that were alive before the call. The release is the caller's: in a state where
  exactly the stored environment and session are alive, \<^verbatim>\<open>FreeResources\<close> of the first
  plugin and \<^verbatim>\<open>RefreshMemory\<close> of the second return with no environment and no session
  alive, and the LoadModel that follows leaves exactly its own environment and session
  alive. The first conjunct is the first plugin, with a selector that contains a key and
  a \<open>resize\<close> that gives the buffer \<open>v\<close>; the second is the second plugin, with a pixel
  count that is not negative, a byte count that fits an \<^verbatim>\<open>int\<close>, and \<open>input_data\<close> null or
  an allocated block.
\<close>

theorem reload_lifecycle:
  assumes "model_loads E path" and "int_ok (w * h)" and "int_ok (w * h * 3)"
  shows
    "(ort s \<and> wf_world (world s) \<and>
      (string_find sel ''CPU'' \<noteq> None \<or> string_find sel ''Dml'' \<noteq> None) \<and>
      vector_resize E (input_data s) (w * h * 3) = Inr v \<longrightarrow>
        (\<exists>s'. LoadModel_cv E s path sel (w, h)
                 = Inr (Literal ''Model loaded successfully.'', s') \<and>
           live_envs (world s') = env s' # live_envs (world s) \<and>
           live_sessions (world s') = session s' # live_sessions (world s)) \<and>
        (live_envs (world s) = [env s] \<and> live_sessions (world s) = [session s] \<longrightarrow>
           (\<exists>s1 s2. FreeResources_cv s = Inr s1 \<and>
              live_envs (world s1) = [] \<and> live_sessions (world s1) = [] \<and>
              LoadModel_cv E s1 path sel (w, h)
                = Inr (Literal ''Model loaded successfully.'', s2) \<and>
              live_envs (world s2) = [env s2] \<and> live_sessions (world s2) = [session s2]))) \<and>
     (y_ort t \<and> wf_world (y_world t) \<and> 0 \<le> w * h \<and> int_ok (w * h * 3 * 4) \<longrightarrow>
        (\<exists>r t'. LoadModel_yolox E t path sel (w, h) = Inr (r, t') \<and>
           live_envs (y_world t') = y_env t' # live_envs (y_world t) \<and>
           live_sessions (y_world t') = y_session t' # live_sessions (y_world t)) \<and>
        (live_envs (y_world t) = [y_env t] \<and> live_sessions (y_world t) = [y_session t] \<and>
         (y_input_data t = 0 \<or> map_of (y_heap t) (y_input_data t) \<noteq> None) \<longrightarrow>
           (\<exists>t1 r t2. RefreshMemory_yolox t = Inr t1 \<and>
              live_envs (y_world t1) = [] \<and> live_sessions (y_world t1) = [] \<and>
              LoadModel_yolox E t1 path sel (w, h) = Inr (r, t2) \<and>
              live_envs (y_world t2) = [y_env t2] \<and>
              live_sessions (y_world t2) = [y_session t2])))"
proof (intro conjI impI; elim conjE)
  assume o: "ort s" and wf: "wf_world (world s)"
    and sel: "string_find sel ''CPU'' \<noteq> None \<or> string_find sel ''Dml'' \<noteq> None"
    and v: "vector_resize E (input_data s) (w * h * 3) = Inr v"
  from LoadModel_cv_succeeds [OF o wf sel assms v]
  show "\<exists>s'. LoadModel_cv E s path sel (w, h)
                 = Inr (Literal ''Model loaded successfully.'', s') \<and>
           live_envs (world s') = env s' # live_envs (world s) \<and>
           live_sessions (world s') = session s' # live_sessions (world s)"
    by blast
next
  assume o: "ort s" and wf: "wf_world (world s)"
    and sel: "string_find sel ''CPU'' \<noteq> None \<or> string_find sel ''Dml'' \<noteq> None"
    and v: "vector_resize E (input_data s) (w * h * 3) = Inr v"
    and envs: "live_envs (world s) = [env s]" and sess: "live_sessions (world s) = [session s]"
  from FreeResources_cv_loaded [OF wf o envs sess] obtain x where
    x: "FreeResources_cv s = Inr (s\<lparr>world := x\<rparr>)" "wf_world x"
      "live_envs x = []" "live_sessions x = []"
    by blast
  let ?s1 = "s\<lparr>world := x\<rparr>"
  have o1: "ort ?s1" and wf1: "wf_world (world ?s1)"
    and v1: "vector_resize E (input_data ?s1) (w * h * 3) = Inr v"
    using o x(2) v by simp_all
  from LoadModel_cv_succeeds [OF o1 wf1 sel assms v1] obtain s2 where
    s2: "LoadModel_cv E ?s1 path sel (w, h) = Inr (Literal ''Model loaded successfully.'', s2)"
      "live_envs (world s2) = env s2 # live_envs (world ?s1)"
      "live_sessions (world s2) = session s2 # live_sessions (world ?s1)"
    by blast
  have "live_envs (world s2) = [env s2]" "live_sessions (world s2) = [session s2]"
    using s2(2,3) x(3,4) by simp_all
  with x s2(1) show "\<exists>s1 s2. FreeResources_cv s = Inr s1 \<and>
              live_envs (world s1) = [] \<and> live_sessions (world s1) = [] \<and>
              LoadModel_cv E s1 path sel (w, h)
                = Inr (Literal ''Model loaded successfully.'', s2) \<and>
              live_envs (world s2) = [env s2] \<and> live_sessions (world s2) = [session s2]"
    by (intro exI [of _ ?s1] exI [of _ s2]) simp
next
  assume o: "y_ort t" and wf: "wf_world (y_world t)" and pos: "0 \<le> w * h"
    and ok4: "int_ok (w * h * 3 * 4)"
  from LoadModel_yolox_succeeds [OF o wf assms pos ok4, of sel]
  show "\<exists>r t'. LoadModel_yolox E t path sel (w, h) = Inr (r, t') \<and>
           live_envs (y_world t') = y_env t' # live_envs (y_world t) \<and>
           live_sessions (y_world t') = y_session t' # live_sessions (y_world t)"
    by blast
next
  assume o: "y_ort t" and wf: "wf_world (y_world t)" and pos: "0 \<le> w * h"
    and ok4: "int_ok (w * h * 3 * 4)"
    and envs: "live_envs (y_world t) = [y_env t]"
    and sess: "live_sessions (y_world t) = [y_session t]"
    and block: "y_input_data t = 0 \<or> map_of (y_heap t) (y_input_data t) \<noteq> None"
  from RefreshMemory_yolox_loaded [OF wf o envs sess block] obtain x heap where
    x: "RefreshMemory_yolox t = Inr (t\<lparr>y_heap := heap, y_world := x\<rparr>)" "wf_world x"
      "live_envs x = []" "live_sessions x = []"
    by blast
  let ?t1 = "t\<lparr>y_heap := heap, y_world := x\<rparr>"
  have o1: "y_ort ?t1" and wf1: "wf_world (y_world ?t1)"
    using o x(2) by simp_all
  from LoadModel_yolox_succeeds [OF o1 wf1 assms pos ok4, of sel] obtain r t2 where
    t2: "LoadModel_yolox E ?t1 path sel (w, h) = Inr (r, t2)"
      "live_envs (y_world t2) = y_env t2 # live_envs (y_world ?t1)"
      "live_sessions (y_world t2) = y_session t2 # live_sessions (y_world ?t1)"
    by blast
  have "live_envs (y_world t2) = [y_env t2]" "live_sessions (y_world t2) = [y_session t2]"
    using t2(2,3) x(3,4) by simp_all
  with x t2(1) show "\<exists>t1 r t2. RefreshMemory_yolox t = Inr t1 \<and>
              live_envs (y_world t1) = [] \<and> live_sessions (y_world t1) = [] \<and>
              LoadModel_yolox E t1 path sel (w, h) = Inr (r, t2) \<and>
              live_envs (y_world t2) = [y_env t2] \<and>
              live_sessions (y_world t2) = [y_session t2]"
    by (intro exI [of _ ?t1] exI [of _ r] exI [of _ t2]) simp
qed

theorem reload_lifecycle_witness:
  "model_loads demo_platform ''model.onnx'' \<and> int_ok (2 * 1) \<and> int_ok (2 * 1 * 3) \<and>
   ort demo_cv \<and> wf_world (world demo_cv) \<and>
   string_find ''CPUExecutionProvider'' ''CPU'' \<noteq> None \<and>
   vector_resize demo_platform (input_data demo_cv) (2 * 1 * 3) = Inr (replicate 6 0) \<and>
   (\<exists>s'. LoadModel_cv demo_platform demo_cv ''model.onnx'' ''CPUExecutionProvider'' (2, 1)
            = Inr (Literal ''Model loaded successfully.'', s') \<and>
          live_envs (world s') = env s' # live_envs (world demo_cv) \<and>
          live_sessions (world s') = session s' # live_sessions (world demo_cv)) \<and>
   live_envs (world demo_cv) = [env demo_cv] \<and>
   live_sessions (world demo_cv) = [session demo_cv] \<and>
   (\<exists>s1 s2. FreeResources_cv demo_cv = Inr s1 \<and>
          live_envs (world s1) = [] \<and> live_sessions (world s1) = [] \<and>
          LoadModel_cv demo_platform s1 ''model.onnx'' ''CPUExecutionProvider'' (2, 1)
            = Inr (Literal ''Model loaded successfully.'', s2) \<and>
          live_envs (world s2) = [env s2] \<and> live_sessions (world s2) = [session s2]) \<and>
   y_ort demo_yolox \<and> wf_world (y_world demo_yolox) \<and> (0::int) \<le> 2 * 1 \<and>
   int_ok (2 * 1 * 3 * 4) \<and>
   (\<exists>r t'. LoadModel_yolox demo_platform demo_yolox ''model.onnx'' ''CPUExecutionProvider''
              (2, 1) = Inr (r, t') \<and>
          live_envs (y_world t') = y_env t' # live_envs (y_world demo_yolox) \<and>
          live_sessions (y_world t') = y_session t' # live_sessions (y_world demo_yolox)) \<and>
   live_envs (y_world demo_yolox) = [y_env demo_yolox] \<and>
   live_sessions (y_world demo_yolox) = [y_session demo_yolox] \<and>
   map_of (y_heap demo_yolox) (y_input_data demo_yolox) \<noteq> None \<and>
   (\<exists>t1 r t2. RefreshMemory_yolox demo_yolox = Inr t1 \<and>
          live_envs (y_world t1) = [] \<and> live_sessions (y_world t1) = [] \<and>
          LoadModel_yolox demo_platform t1 ''model.onnx'' ''CPUExecutionProvider'' (2, 1)
            = Inr (r, t2) \<and>
          live_envs (y_world t2) = [y_env t2] \<and> live_sessions (y_world t2) = [y_session t2])"
proof -
  have ok: "int_ok (2 * 1)" "int_ok (2 * 1 * 3)"
    by (simp_all add: int_ok_def)
  have ok4: "(0::int) \<le> 2 * 1" "int_ok (2 * 1 * 3 * 4)"
    by (simp_all add: int_ok_def)
  have v: "vector_resize demo_platform (input_data demo_cv) (2 * 1 * 3) = Inr (replicate 6 0)"
    by (simp add: vector_resize_def demo_cv_def)
  have e: "live_envs (world demo_cv) = [env demo_cv]"
    "live_sessions (world demo_cv) = [session demo_cv]"
    by (simp_all add: demo_cv_simps)
  have ye: "live_envs (y_world demo_yolox) = [y_env demo_yolox]"
    "live_sessions (y_world demo_yolox) = [y_session demo_yolox]"
    by (simp_all add: demo_yolox_simps)
  note T = reload_lifecycle [OF demo_platform_simps(1) ok, where s = demo_cv
      and sel = "''CPUExecutionProvider''" and v = "replicate 6 0" and t = demo_yolox]
  have h1: "ort demo_cv \<and> wf_world (world demo_cv) \<and>
      (string_find ''CPUExecutionProvider'' ''CPU'' \<noteq> None \<or>
       string_find ''CPUExecutionProvider'' ''Dml'' \<noteq> None) \<and>
      vector_resize demo_platform (input_data demo_cv) (2 * 1 * 3) = Inr (replicate 6 0)"
    using demo_cv_simps(1,2) demo_selectors(1) v by (intro conjI disjI1)
  have h2: "live_envs (world demo_cv) = [env demo_cv] \<and>
      live_sessions (world demo_cv) = [session demo_cv]"
    using e by (intro conjI)
  have h3: "y_ort demo_yolox \<and> wf_world (y_world demo_yolox) \<and> 0 \<le> (2::int) * 1 \<and>
      int_ok (2 * 1 * 3 * 4)"
    using demo_yolox_simps(1,2) ok4 by (intro conjI)
  have h4: "live_envs (y_world demo_yolox) = [y_env demo_yolox] \<and>
      live_sessions (y_world demo_yolox) = [y_session demo_yolox] \<and>
      (y_input_data demo_yolox = 0 \<or>
       map_of (y_heap demo_yolox) (y_input_data demo_yolox) \<noteq> None)"
    using ye demo_yolox_block by (intro conjI disjI2)
  note C = T [THEN conjunct1, THEN mp, OF h1]
  note Y = T [THEN conjunct2, THEN mp, OF h3]
  note c1 = C [THEN conjunct1]
  note c2 = C [THEN conjunct2, THEN mp, OF h2]
  note y1 = Y [THEN conjunct1]
  note y2 = Y [THEN conjunct2, THEN mp, OF h4]
  from demo_platform_simps(1) ok demo_cv_simps(1,2) demo_selectors(1) v c1 e c2
    demo_yolox_simps(1,2) ok4 y1 ye demo_yolox_block y2
  show ?thesis
    by (intro conjI)
qed

end
